theory Spec2Isabelle
  imports Main "HOL-Library.Word"
begin

unbundle bit_operations_syntax

section \<open>Machine integers\<close>

type_synonym u8 = "8 word"
type_synonym u16 = "16 word"
type_synonym u32 = "32 word"
type_synonym u64 = "64 word"

text \<open>
  Modelled from the spec: \<open>fls\<close> and \<open>ilog2\<close> are helpers of xen/bitops.h, which is not
  under src/. \<open>fls x\<close> is the 1-based position of the highest set bit of a 32-bit
  word and 0 for the empty word (what makes the bitmap scan return -1 on an empty bitmap);
  \<open>ilog2\<close> is the position of the single bit of a mask.
\<close>

fun fls_from :: "nat \<Rightarrow> u32 \<Rightarrow> nat" where
  "fls_from 0 x = 0"
| "fls_from (Suc n) x = (if bit x n then Suc n else fls_from n x)"

definition fls :: "u32 \<Rightarrow> nat" where
  "fls x = fls_from 32 x"

definition ilog2 :: "u32 \<Rightarrow> nat" where
  "ilog2 x = fls x - 1"

section \<open>Register offsets and masks\<close>

text \<open>
  Modelled from the spec: the register offsets and bit masks come from asm/apicdef.h and
  asm/hvm/vlapic.h, which are not under src/. The register file is a block of 32-bit
  registers at 16-byte stride with three 256-bit bitmaps (in-service, trigger-mode,
  in-request) of eight words each; the values are those of the local APIC register layout.
\<close>

definition APIC_ID :: nat where "APIC_ID = 0x20"
definition APIC_TASKPRI :: nat where "APIC_TASKPRI = 0x80"
definition APIC_PROCPRI :: nat where "APIC_PROCPRI = 0xA0"
definition APIC_LDR :: nat where "APIC_LDR = 0xD0"
definition APIC_DFR :: nat where "APIC_DFR = 0xE0"
definition APIC_ISR :: nat where "APIC_ISR = 0x100"
definition APIC_TMR :: nat where "APIC_TMR = 0x180"
definition APIC_IRR :: nat where "APIC_IRR = 0x200"
definition APIC_LVTT :: nat where "APIC_LVTT = 0x320"
definition APIC_LVTERR :: nat where "APIC_LVTERR = 0x370"
definition APIC_TMICT :: nat where "APIC_TMICT = 0x380"
definition APIC_TMCCT :: nat where "APIC_TMCCT = 0x390"
definition APIC_TDCR :: nat where "APIC_TDCR = 0x3E0"

definition X86_IDT_VECTORS :: nat where "X86_IDT_VECTORS = 256"

definition APIC_VECTOR_MASK :: u32 where "APIC_VECTOR_MASK = 0xFF"
definition APIC_LVT_MASKED :: u32 where "APIC_LVT_MASKED = 0x10000"
definition APIC_ESR_SENDILL :: u32 where "APIC_ESR_SENDILL = 0x20"
definition APIC_ESR_RECVILL :: u32 where "APIC_ESR_RECVILL = 0x40"
definition APIC_DFR_FLAT :: u32 where "APIC_DFR_FLAT = 0xFFFFFFFF"
definition APIC_DFR_CLUSTER :: u32 where "APIC_DFR_CLUSTER = 0x0FFFFFFF"
definition APIC_TIMER_MODE_MASK :: u32 where "APIC_TIMER_MODE_MASK = 0x60000"
definition APIC_TIMER_MODE_ONESHOT :: u32 where "APIC_TIMER_MODE_ONESHOT = 0"
definition APIC_TIMER_MODE_PERIODIC :: u32 where "APIC_TIMER_MODE_PERIODIC = 0x20000"
definition APIC_TIMER_MODE_TSC_DEADLINE :: u32 where "APIC_TIMER_MODE_TSC_DEADLINE = 0x40000"
definition APIC_TDR_DIV_MASK :: u32 where "APIC_TDR_DIV_MASK = 0xB"
definition APIC_BUS_CYCLE_NS :: u32 where "APIC_BUS_CYCLE_NS = 10"

definition APIC_DEST_NOSHORT :: u32 where "APIC_DEST_NOSHORT = 0x00000"
definition APIC_DEST_SELF :: u32 where "APIC_DEST_SELF = 0x40000"
definition APIC_DEST_ALLINC :: u32 where "APIC_DEST_ALLINC = 0x80000"
definition APIC_DEST_ALLBUT :: u32 where "APIC_DEST_ALLBUT = 0xC0000"

definition APIC_BASE_EXTD :: u64 where "APIC_BASE_EXTD = 0x400"
definition APIC_BASE_ENABLE :: u64 where "APIC_BASE_ENABLE = 0x800"
definition APIC_BASE_ADDR_MASK :: u64 where "APIC_BASE_ADDR_MASK = 0x000FFFFFFFFFF000"

text \<open>\<open>APIC_VECTOR_VALID(x)\<close>: vectors 0 to 15 are illegal.\<close>

definition APIC_VECTOR_VALID :: "u32 \<Rightarrow> bool" where
  "APIC_VECTOR_VALID x \<longleftrightarrow> (x AND APIC_VECTOR_MASK) \<ge> 16"

definition GET_xAPIC_ID :: "u32 \<Rightarrow> u32" where
  "GET_xAPIC_ID x = (drop_bit 24 x) AND 0xFF"

definition GET_xAPIC_LOGICAL_ID :: "u32 \<Rightarrow> u32" where
  "GET_xAPIC_LOGICAL_ID x = (drop_bit 24 x) AND 0xFF"

section \<open>Controller state\<close>

text \<open>
  Calls into collaborators (scheduler, platform hooks, I/O interrupt controller,
  passed-through device interrupts, the Viridian enlightenments) are recorded in the order
  the code makes them.
\<close>

datatype call =
    Vcpu_kick
  | Update_eoi_exit_bitmap u8 u8
  | Deliver_posted_intr u8
  | Handle_eoi int int
  | Vioapic_update_EOI u8
  | Hvm_dpci_msi_eoi u8
  | Viridian_apic_assist_set
  | Viridian_apic_assist_clear
  | Hvm_update_vlapic_mode

text \<open>The saved "hidden" state, \<open>struct hvm_hw_lapic\<close>.\<close>

record hvm_hw_lapic =
  apic_base_msr :: u64
  disabled :: u32
  timer_divisor :: u32
  tdt_msr :: u64
  pending_esr :: u32

record vlapic_loaded =
  loaded_hw :: bool
  loaded_regs :: bool
  loaded_id :: u32
  loaded_ldr :: u32

text \<open>
  \<open>struct vlapic\<close>: \<open>regs\<close> maps the byte offset of a register within the register page
  to its 32-bit value; \<open>timer_last_update\<close> is the \<open>s_time_t\<close> timestamp, kept as its
  64-bit pattern; \<open>calls\<close> is the record of collaborator calls.
\<close>

record vlapic =
  hw :: hvm_hw_lapic
  regs :: "nat \<Rightarrow> u32"
  loaded :: vlapic_loaded
  timer_last_update :: u64
  calls :: "call list"

text \<open>
  \<open>hvm_funcs\<close>: which optional platform hooks are present, and the capability
  \<open>caps.virtual_intr_delivery\<close>.
\<close>

record hvm_function_table =
  update_eoi_exit_bitmap :: bool
  deliver_posted_intr :: bool
  handle_eoi :: bool
  virtual_intr_delivery :: bool

text \<open>
  What the Viridian collaborator answers for the domain and virtual processor:
  \<open>has_viridian_apic_assist(d)\<close>, \<open>has_viridian_synic(d)\<close> and
  \<open>viridian_synic_is_auto_eoi_sint(v, vector)\<close>.
\<close>

record viridian =
  has_viridian_apic_assist :: bool
  has_viridian_synic :: bool
  viridian_synic_is_auto_eoi_sint :: "nat \<Rightarrow> bool"

definition do_call :: "call \<Rightarrow> vlapic \<Rightarrow> vlapic" where
  "do_call c s = s\<lparr>calls := calls s @ [c]\<rparr>"

definition vlapic_get_reg :: "vlapic \<Rightarrow> nat \<Rightarrow> u32" where
  "vlapic_get_reg s reg = regs s reg"

definition vlapic_set_reg :: "vlapic \<Rightarrow> nat \<Rightarrow> u32 \<Rightarrow> vlapic" where
  "vlapic_set_reg s reg val = s\<lparr>regs := (regs s)(reg := val)\<rparr>"

subsection \<open>Bitmaps\<close>

text \<open>
  Modelled from the spec: the per-vector bit macros of asm/hvm/vlapic.h (not under src/).
  A bitmap is 256 single-bit flags indexed by vector, stored as 8 32-bit words at
  16-byte stride from the bitmap's offset: vector \<open>v\<close> is bit \<open>v % 32\<close> of the word at
  \<open>(v / 32) * 0x10\<close>.
\<close>

definition VEC_POS :: "nat \<Rightarrow> nat" where
  "VEC_POS v = v mod 32"

definition REG_POS :: "nat \<Rightarrow> nat" where
  "REG_POS v = (v div 32) * 0x10"

definition vlapic_test_vector :: "nat \<Rightarrow> nat \<Rightarrow> (nat \<Rightarrow> u32) \<Rightarrow> bool" where
  "vlapic_test_vector vec bitmap r = bit (r (bitmap + REG_POS vec)) (VEC_POS vec)"

definition vlapic_set_vector :: "nat \<Rightarrow> nat \<Rightarrow> (nat \<Rightarrow> u32) \<Rightarrow> (nat \<Rightarrow> u32)" where
  "vlapic_set_vector vec bitmap r =
     r(bitmap + REG_POS vec := set_bit (VEC_POS vec) (r (bitmap + REG_POS vec)))"

definition vlapic_clear_vector :: "nat \<Rightarrow> nat \<Rightarrow> (nat \<Rightarrow> u32) \<Rightarrow> (nat \<Rightarrow> u32)" where
  "vlapic_clear_vector vec bitmap r =
     r(bitmap + REG_POS vec := unset_bit (VEC_POS vec) (r (bitmap + REG_POS vec)))"

definition vlapic_test_and_set_vector ::
    "nat \<Rightarrow> nat \<Rightarrow> (nat \<Rightarrow> u32) \<Rightarrow> bool \<times> (nat \<Rightarrow> u32)" where
  "vlapic_test_and_set_vector vec bitmap r =
     (vlapic_test_vector vec bitmap r, vlapic_set_vector vec bitmap r)"

text \<open>
  \<open>vlapic_find_highest_vector\<close>. The pointer \<open>word\<close> views the bitmap as 32-bit words, so
  \<open>word[i]\<close> is the register at byte offset \<open>bitmap + 4 * i\<close>. \<open>find_word word n\<close> is the
  value of \<open>word_offset\<close> when the loop
  \<open>while ( (word_offset != 0) && (word[(--word_offset)*4] == 0) ) continue;\<close>
  entered with \<open>word_offset = n\<close> exits.
\<close>

fun find_word :: "(nat \<Rightarrow> u32) \<Rightarrow> nat \<Rightarrow> nat" where
  "find_word word 0 = 0"
| "find_word word (Suc n) = (if word (n * 4) = 0 then find_word word n else n)"

definition vlapic_find_highest_vector :: "nat \<Rightarrow> (nat \<Rightarrow> u32) \<Rightarrow> int" where
  "vlapic_find_highest_vector bitmap r =
     (let word = (\<lambda>i. r (bitmap + 4 * i));
          word_offset = find_word word (X86_IDT_VECTORS div 32)
      in (int (fls (word (word_offset * 4))) - 1) + int (word_offset * 32))"

definition vlapic_find_highest_isr :: "vlapic \<Rightarrow> int" where
  "vlapic_find_highest_isr s = vlapic_find_highest_vector APIC_ISR (regs s)"

definition vlapic_test_and_set_irr :: "nat \<Rightarrow> vlapic \<Rightarrow> bool \<times> vlapic" where
  "vlapic_test_and_set_irr vector s =
     (case vlapic_test_and_set_vector vector APIC_IRR (regs s) of
        (old, r) \<Rightarrow> (old, s\<lparr>regs := r\<rparr>))"

definition vlapic_clear_irr :: "nat \<Rightarrow> vlapic \<Rightarrow> vlapic" where
  "vlapic_clear_irr vector s = s\<lparr>regs := vlapic_clear_vector vector APIC_IRR (regs s)\<rparr>"

section \<open>Priority\<close>

definition vlapic_get_ppr :: "vlapic \<Rightarrow> u32" where
  "vlapic_get_ppr s =
     (let tpr = vlapic_get_reg s APIC_TASKPRI;
          isr = vlapic_find_highest_isr s;
          isrv = (if isr \<noteq> -1 then word_of_int isr else 0) :: u32
      in if (tpr AND 0xf0) \<ge> (isrv AND 0xf0) then tpr AND 0xff else isrv AND 0xf0)"

section \<open>Error reporting and interrupt acceptance\<close>

text \<open>
  \<open>vlapic_error\<close> and \<open>vlapic_set_irq\<close> call each other: an illegal vector handed to
  \<open>vlapic_set_irq\<close> raises the receive-illegal-vector error, and \<open>vlapic_error\<close> injects the
  error LVT vector through \<open>vlapic_set_irq\<close>. \<open>test_and_set_bit\<close> on \<open>pending_esr\<close> is the
  old bit together with the word with the bit set. The error bit is a bit number of the
  32-bit word \<open>pending_esr\<close>. The recursion ends because \<open>vlapic_error\<close> only hands a
  legal vector on: \<open>irq_measure\<close> is 2 for an assertion of an illegal vector, 1 for an
  error report and 0 for an assertion of a legal vector.
\<close>

definition irq_measure ::
    "(hvm_function_table \<times> vlapic \<times> nat) + (hvm_function_table \<times> vlapic \<times> u8 \<times> u8) \<Rightarrow> nat" where
  "irq_measure x =
     (case x of
        Inl (hf, s, err_bit) \<Rightarrow> 1
      | Inr (hf, s, vec, trig) \<Rightarrow> if APIC_VECTOR_VALID (ucast vec) then 0 else 2)"

function vlapic_error :: "hvm_function_table \<Rightarrow> vlapic \<Rightarrow> nat \<Rightarrow> vlapic"
  and vlapic_set_irq :: "hvm_function_table \<Rightarrow> vlapic \<Rightarrow> u8 \<Rightarrow> u8 \<Rightarrow> vlapic"
where
  "vlapic_error hf s err_bit =
     (let old = bit (pending_esr (hw s)) err_bit;
          s1 = s\<lparr>hw := (hw s)\<lparr>pending_esr := set_bit err_bit (pending_esr (hw s))\<rparr>\<rparr>
      in if old then s1
         else
           let lvterr = vlapic_get_reg s1 APIC_LVTERR;
               unmasked = (lvterr AND APIC_LVT_MASKED = 0);
               inj = (unmasked \<and> APIC_VECTOR_VALID lvterr);
               s2 = (if unmasked \<and> \<not> APIC_VECTOR_VALID lvterr
                     then s1\<lparr>hw := (hw s1)\<lparr>pending_esr :=
                            set_bit (ilog2 APIC_ESR_RECVILL) (pending_esr (hw s1))\<rparr>\<rparr>
                     else s1)
           in if inj then vlapic_set_irq hf s2 (ucast (lvterr AND APIC_VECTOR_MASK)) 0
              else s2)"
| "vlapic_set_irq hf s vec trig =
     (if \<not> APIC_VECTOR_VALID (ucast vec) then vlapic_error hf s (ilog2 APIC_ESR_RECVILL)
      else
        let s1 = s\<lparr>regs := (if trig \<noteq> 0
                             then vlapic_set_vector (unat vec) APIC_TMR (regs s)
                             else vlapic_clear_vector (unat vec) APIC_TMR (regs s))\<rparr>;
            s2 = (if update_eoi_exit_bitmap hf
                  then do_call (Update_eoi_exit_bitmap vec trig) s1 else s1)
        in if deliver_posted_intr hf then do_call (Deliver_posted_intr vec) s2
           else (case vlapic_test_and_set_irr (unat vec) s2 of
                   (old, s3) \<Rightarrow> if \<not> old then do_call Vcpu_kick s3 else s3))"
  by pat_completeness auto
termination
proof (relation "measure irq_measure")
  show "wf (measure irq_measure)"
    by simp
next
  fix lvterr :: u32
  have "(ucast (ucast (lvterr AND mask 8) :: u8) :: u32) AND mask 8 = lvterr AND mask 8"
    by (rule bit_eqI) (auto simp: bit_simps)
  moreover have "(0xFF :: u32) = mask 8"
    by (simp add: mask_eq_exp_minus_1)
  ultimately have "(ucast (ucast (lvterr AND 0xFF) :: u8) :: u32) AND 0xFF = lvterr AND 0xFF"
    by (simp only:)
  then have v: "APIC_VECTOR_VALID lvterr \<Longrightarrow>
      APIC_VECTOR_VALID (ucast (ucast (lvterr AND APIC_VECTOR_MASK) :: u8))"
    by (simp add: APIC_VECTOR_VALID_def APIC_VECTOR_MASK_def)
  fix hf :: hvm_function_table and s s2 :: vlapic and err_bit :: nat
    and unmasked inj :: bool
  assume "inj = (unmasked \<and> APIC_VECTOR_VALID lvterr)" "inj"
  then show "(Inr (hf, s2, ucast (lvterr AND APIC_VECTOR_MASK), 0), Inl (hf, s, err_bit))
      \<in> measure irq_measure"
    using v by (simp add: irq_measure_def)
next
  fix hf :: hvm_function_table and s :: vlapic and vec trig :: u8
  assume "\<not> APIC_VECTOR_VALID (ucast vec)"
  then show "(Inl (hf, s, ilog2 APIC_ESR_RECVILL), Inr (hf, s, vec, trig))
      \<in> measure irq_measure"
    by (simp add: irq_measure_def)
qed

section \<open>Destination matching\<close>

text \<open>
  Modelled from the spec: \<open>vlapic_x2apic_mode\<close>, \<open>_VLAPIC_ID\<close> (here \<open>VLAPIC_ID'\<close>) and
  \<open>VLAPIC_ID\<close> are macros of asm/hvm/vlapic.h, not under src/. Extended addressing is the
  extended bit of the base-address value; the ID is the whole ID register in extended
  addressing and its top byte in standard addressing.
\<close>

definition vlapic_x2apic_mode :: "vlapic \<Rightarrow> bool" where
  "vlapic_x2apic_mode s \<longleftrightarrow> apic_base_msr (hw s) AND APIC_BASE_EXTD \<noteq> 0"

definition VLAPIC_ID' :: "vlapic \<Rightarrow> u32 \<Rightarrow> u32" where
  "VLAPIC_ID' s ident = (if vlapic_x2apic_mode s then ident else GET_xAPIC_ID ident)"

definition VLAPIC_ID :: "vlapic \<Rightarrow> u32" where
  "VLAPIC_ID s = VLAPIC_ID' s (vlapic_get_reg s APIC_ID)"

definition vlapic_match_logical_addr :: "vlapic \<Rightarrow> u32 \<Rightarrow> bool" where
  "vlapic_match_logical_addr s mda =
     (let logical_id = vlapic_get_reg s APIC_LDR in
      if vlapic_x2apic_mode s
      then drop_bit 16 logical_id = drop_bit 16 mda \<and> (ucast (logical_id AND mda) :: u16) \<noteq> 0
      else
        let logical_id = GET_xAPIC_LOGICAL_ID logical_id;
            mda = (ucast (ucast mda :: u8) :: u32);
            dfr = vlapic_get_reg s APIC_DFR
        in if dfr = APIC_DFR_FLAT then logical_id AND mda \<noteq> 0
           else if dfr = APIC_DFR_CLUSTER
           then drop_bit 4 logical_id = drop_bit 4 mda \<and> logical_id AND mda AND 0xf \<noteq> 0
           else False)"

text \<open>
  A controller is passed as its address and its contents: \<open>target == source\<close> compares
  the addresses.
\<close>

definition vlapic_match_dest ::
    "nat \<times> vlapic \<Rightarrow> nat \<times> vlapic \<Rightarrow> u32 \<Rightarrow> u32 \<Rightarrow> bool \<Rightarrow> bool" where
  "vlapic_match_dest target source short_hand dest dest_mode =
     (if short_hand = APIC_DEST_NOSHORT then
        (if dest_mode then vlapic_match_logical_addr (snd target) dest
         else dest = VLAPIC_ID' (snd target) 0xffffffff \<or> dest = VLAPIC_ID (snd target))
      else if short_hand = APIC_DEST_SELF then fst target = fst source
      else if short_hand = APIC_DEST_ALLINC then True
      else if short_hand = APIC_DEST_ALLBUT then fst target \<noteq> fst source
      else False)"

section \<open>End of interrupt and acknowledgment\<close>

definition viridian_apic_assist_set :: "vlapic \<Rightarrow> vlapic" where
  "viridian_apic_assist_set s = do_call Viridian_apic_assist_set s"

definition viridian_apic_assist_clear :: "vlapic \<Rightarrow> vlapic" where
  "viridian_apic_assist_clear s = do_call Viridian_apic_assist_clear s"

definition vlapic_handle_EOI :: "vlapic \<Rightarrow> u8 \<Rightarrow> vlapic" where
  "vlapic_handle_EOI s vector =
     (let s1 = (if vlapic_test_vector (unat vector) APIC_TMR (regs s)
                then do_call (Vioapic_update_EOI vector) s else s)
      in do_call (Hvm_dpci_msi_eoi vector) s1)"

text \<open>
  The body of \<open>vlapic_EOI_set\<close> from the label \<open>again\<close>, with the current value of
  \<open>missed_eoi\<close>; the \<open>goto again\<close> is the recursive call.
\<close>

function vlapic_EOI_set_again :: "hvm_function_table \<Rightarrow> bool \<Rightarrow> vlapic \<Rightarrow> vlapic" where
  "vlapic_EOI_set_again hf missed_eoi s =
     (let vector = vlapic_find_highest_isr s in
      if vector = -1 then s
      else
        let s1 = (if \<not> missed_eoi then viridian_apic_assist_clear s else s);
            s2 = s1\<lparr>regs := vlapic_clear_vector (nat vector) APIC_ISR (regs s1)\<rparr>;
            s3 = (if handle_eoi hf
                  then do_call (Handle_eoi vector (vlapic_find_highest_isr s2)) s2 else s2);
            s4 = vlapic_handle_EOI s3 (word_of_int vector)
        in if missed_eoi then vlapic_EOI_set_again hf False s4 else s4)"
  by pat_completeness auto
termination
  by (relation "measure (\<lambda>(hf, missed_eoi, s). if missed_eoi then 1 else 0)") auto

text \<open>
  \<open>vlapic_EOI_set\<close>; \<open>completed\<close> is what \<open>viridian_apic_assist_completed(v)\<close> answers.
\<close>

definition vlapic_EOI_set :: "hvm_function_table \<Rightarrow> bool \<Rightarrow> vlapic \<Rightarrow> vlapic" where
  "vlapic_EOI_set hf completed s = vlapic_EOI_set_again hf completed s"

definition vlapic_ack_pending_irq ::
    "hvm_function_table \<Rightarrow> viridian \<Rightarrow> vlapic \<Rightarrow> nat \<Rightarrow> bool \<Rightarrow> int \<times> vlapic" where
  "vlapic_ack_pending_irq hf vd s vector force_ack =
     (if \<not> force_ack \<and> virtual_intr_delivery hf then (1, s)
      else
        let s1 = (if \<not> has_viridian_apic_assist vd \<or>
                     vlapic_test_vector vector APIC_TMR (regs s) then s
                  else
                    let isr = vlapic_find_highest_isr s in
                    if isr = -1 \<and> vector > 0x10 then viridian_apic_assist_set s else s);
            s2 = (if \<not> has_viridian_synic vd \<or> \<not> viridian_synic_is_auto_eoi_sint vd vector
                  then s1\<lparr>regs := vlapic_set_vector vector APIC_ISR (regs s1)\<rparr> else s1)
        in (1, vlapic_clear_irr vector s2))"

section \<open>Timer registers\<close>

definition vlapic_lvtt_period :: "vlapic \<Rightarrow> bool" where
  "vlapic_lvtt_period s \<longleftrightarrow>
     (vlapic_get_reg s APIC_LVTT AND APIC_TIMER_MODE_MASK) = APIC_TIMER_MODE_PERIODIC"

definition vlapic_lvtt_oneshot :: "vlapic \<Rightarrow> bool" where
  "vlapic_lvtt_oneshot s \<longleftrightarrow>
     (vlapic_get_reg s APIC_LVTT AND APIC_TIMER_MODE_MASK) = APIC_TIMER_MODE_ONESHOT"

text \<open>
  \<open>vlapic_get_tmcct\<close>; \<open>now\<close> is what \<open>hvm_get_guest_time(v)\<close> returns. The subtraction is
  done on 64-bit unsigned values and the divisor \<open>APIC_BUS_CYCLE_NS * timer_divisor\<close> on
  32-bit unsigned values. The division is evaluated before \<open>tmict\<close> and
  \<open>timer_last_update\<close> are tested; a zero divisor is a divide error of the hypervisor,
  the result \<open>None\<close>.
\<close>

definition vlapic_get_tmcct :: "u64 \<Rightarrow> vlapic \<Rightarrow> u32 option" where
  "vlapic_get_tmcct now s =
     (let tmict = vlapic_get_reg s APIC_TMICT;
          divisor = (ucast (APIC_BUS_CYCLE_NS * timer_divisor (hw s)) :: u64)
      in if divisor = 0 then None
         else
           let counter_passed = (now - timer_last_update s) div divisor in
           if tmict \<noteq> 0 \<and> timer_last_update s \<noteq> 0 then
             (let counter_passed = (if vlapic_lvtt_period s
                                    then counter_passed mod ucast tmict else counter_passed)
              in if counter_passed < ucast tmict
                 then Some (ucast ((ucast tmict :: u64) - counter_passed))
                 else Some 0)
           else Some 0)"

definition vlapic_set_tdcr :: "vlapic \<Rightarrow> u32 \<Rightarrow> vlapic" where
  "vlapic_set_tdcr s val =
     (let val = val AND APIC_TDR_DIV_MASK;
          s1 = vlapic_set_reg s APIC_TDCR val;
          val = ((val AND 3) OR drop_bit 1 (val AND 8)) + 1
      in s1\<lparr>hw := (hw s1)\<lparr>timer_divisor := push_bit (unat (val AND 7)) 1\<rparr>\<rparr>)"

definition vlapic_read_aligned :: "u64 \<Rightarrow> vlapic \<Rightarrow> nat \<Rightarrow> u32 option" where
  "vlapic_read_aligned now s offset =
     (if offset = APIC_PROCPRI then Some (vlapic_get_ppr s)
      else if offset = APIC_TMCCT then
        (if \<not> vlapic_lvtt_oneshot s \<and> \<not> vlapic_lvtt_period s then Some 0
         else vlapic_get_tmcct now s)
      else if offset = APIC_TMICT then
        (if \<not> vlapic_lvtt_oneshot s \<and> \<not> vlapic_lvtt_period s then Some 0
         else Some (vlapic_get_reg s offset))
      else Some (vlapic_get_reg s offset))"

section \<open>Memory-mapped reads\<close>

text \<open>
  Modelled from the spec: the return codes of the emulator (x86_emulate.h) and
  \<open>vlapic_base_address\<close> (asm/hvm/vlapic.h) are not under src/.
\<close>

datatype x86emul = X86EMUL_OKAY | X86EMUL_UNHANDLEABLE | X86EMUL_EXCEPTION

definition vlapic_base_address :: "vlapic \<Rightarrow> u64" where
  "vlapic_base_address s = apic_base_msr (hw s) AND APIC_BASE_ADDR_MASK"

text \<open>
  \<open>vlapic_mmio_read\<close> returns the return code and the value stored through \<open>pval\<close>;
  \<open>None\<close> is the divide error of \<open>vlapic_get_tmcct\<close>. \<open>offset\<close>, \<open>alignment\<close> and \<open>len\<close>
  are \<open>unsigned int\<close>, so \<open>alignment + len\<close> wraps at 32 bits.
\<close>

definition vlapic_mmio_read :: "u64 \<Rightarrow> vlapic \<Rightarrow> u64 \<Rightarrow> u32 \<Rightarrow> (x86emul \<times> u64) option" where
  "vlapic_mmio_read now s address len =
     (let offset = (ucast (address - vlapic_base_address s) :: u32);
          alignment = offset AND 0xf
      in if alignment + len \<le> 4 \<and> unat offset \<le> APIC_TDCR + 3 then
           (case vlapic_read_aligned now s (unat (offset AND NOT 0xf)) of
              None \<Rightarrow> None
            | Some reg \<Rightarrow>
                let result =
                  (if len = 1
                   then ucast (ucast (drop_bit (unat (alignment * 8)) reg) :: u8)
                   else if len = 2
                   then ucast (ucast (drop_bit (unat (alignment * 8)) reg) :: u16)
                   else if len = 4 then reg
                   else 0)
                in Some (X86EMUL_OKAY, ucast result))
         else Some (X86EMUL_OKAY, 0))"

section \<open>Save and restore of the hidden state\<close>

datatype errno = ENODEV | EINVAL | ENODATA

text \<open>
  The domain: whether it has virtual local APICs, its virtual processors' controllers
  (\<open>d->vcpu[]\<close>, an absent processor being \<open>None\<close>), and the compatibility flag the fixup
  may latch.
\<close>

record domain =
  has_vlapic :: bool
  vcpu :: "vlapic option list"
  bug_x2apic_ldr_vcpu_id :: bool

text \<open>
  Modelled from the spec: the save/restore framework (\<open>hvm_load_instance\<close>,
  \<open>hvm_load_entry_zeroextend\<close>, \<open>domain_vcpu\<close>, and the driver that runs a record's check
  callback before its load callback) is not under src/. A record being restored carries the
  virtual-processor index and the decoded hidden state, \<open>None\<close> when the record is missing
  or short.
\<close>

record hvm_domain_context =
  hvm_load_instance :: nat
  hvm_load_entry :: "hvm_hw_lapic option"

definition domain_vcpu :: "domain \<Rightarrow> nat \<Rightarrow> vlapic option" where
  "domain_vcpu d vcpu_id = (if vcpu_id \<ge> length (vcpu d) then None else vcpu d ! vcpu_id)"

definition lapic_check_common :: "domain \<Rightarrow> nat \<Rightarrow> errno + unit" where
  "lapic_check_common d vcpuid =
     (if \<not> has_vlapic d then Inl ENODEV
      else if domain_vcpu d vcpuid = None then Inl EINVAL
      else Inr ())"

definition lapic_check_hidden :: "domain \<Rightarrow> hvm_domain_context \<Rightarrow> errno + unit" where
  "lapic_check_hidden d h =
     (let vcpuid = hvm_load_instance h in
      case lapic_check_common d vcpuid of
        Inl rc \<Rightarrow> Inl rc
      | Inr _ \<Rightarrow>
          (case hvm_load_entry h of
             None \<Rightarrow> Inl ENODATA
           | Some s \<Rightarrow>
               if (apic_base_msr s AND (APIC_BASE_ENABLE OR APIC_BASE_EXTD)) = APIC_BASE_EXTD
               then Inl EINVAL
               else Inr ()))"

definition x2apic_ldr_from_id :: "u32 \<Rightarrow> u32" where
  "x2apic_ldr_from_id ident =
     push_bit 12 (ident AND NOT 0xf) OR push_bit (unat (ident AND 0xf)) 1"

definition set_x2apic_id :: "domain \<Rightarrow> nat \<Rightarrow> vlapic \<Rightarrow> vlapic" where
  "set_x2apic_id d vcpu_id s =
     (let apic_id = (of_nat vcpu_id * 2 :: u32);
          apic_ldr = (if bug_x2apic_ldr_vcpu_id d then x2apic_ldr_from_id (of_nat vcpu_id)
                      else x2apic_ldr_from_id apic_id)
      in vlapic_set_reg (vlapic_set_reg s APIC_ID apic_id) APIC_LDR apic_ldr)"

text \<open>\<open>lapic_load_fixup\<close> returns the controller and the domain's compatibility flag.\<close>

definition lapic_load_fixup :: "domain \<Rightarrow> nat \<Rightarrow> vlapic \<Rightarrow> vlapic \<times> bool" where
  "lapic_load_fixup d vcpu_id s =
     (let good_ldr = x2apic_ldr_from_id (loaded_id (loaded s)) in
      if \<not> vlapic_x2apic_mode s \<or> loaded_ldr (loaded s) = good_ldr
      then (s, bug_x2apic_ldr_vcpu_id d)
      else if loaded_ldr (loaded s) = 1 then (set_x2apic_id d vcpu_id s, bug_x2apic_ldr_vcpu_id d)
      else if loaded_ldr (loaded s) = x2apic_ldr_from_id (of_nat vcpu_id) then (s, True)
      else (s, bug_x2apic_ldr_vcpu_id d))"

text \<open>
  \<open>lapic_load_hidden\<close> indexes \<open>d->vcpu[vcpuid]\<close> unchecked; \<open>None\<close> is the access to a
  processor that does not exist (an index past the array or a null entry). A failing
  \<open>hvm_load_entry_zeroextend\<close> returns \<open>-EINVAL\<close> with nothing written.
\<close>

definition lapic_load_hidden ::
    "domain \<Rightarrow> hvm_domain_context \<Rightarrow> ((errno + unit) \<times> domain) option" where
  "lapic_load_hidden d h =
     (let vcpuid = hvm_load_instance h in
      case (if vcpuid < length (vcpu d) then vcpu d ! vcpuid else None) of
        None \<Rightarrow> None
      | Some s \<Rightarrow>
          (case hvm_load_entry h of
             None \<Rightarrow> Some (Inl EINVAL, d)
           | Some e \<Rightarrow>
               let s1 = s\<lparr>hw := e\<rparr>;
                   s2 = s1\<lparr>loaded := (loaded s1)\<lparr>loaded_hw := True\<rparr>\<rparr>;
                   (s3, bug) = (if loaded_regs (loaded s2) then lapic_load_fixup d vcpuid s2
                                else (s2, bug_x2apic_ldr_vcpu_id d));
                   s4 = do_call Hvm_update_vlapic_mode s3
               in Some (Inr (), d\<lparr>vcpu := (vcpu d)[vcpuid := Some s4],
                                   bug_x2apic_ldr_vcpu_id := bug\<rparr>)))"


section \<open>Example states\<close>

text \<open>
  A controller in standard addressing at the default base, task priority 0x25, vectors 32
  and 48 in service, nothing requested.
\<close>

definition vlapic_example :: vlapic where
  "vlapic_example =
     \<lparr>hw = \<lparr>apic_base_msr = 0xFEE00800, disabled = 0, timer_divisor = 2, tdt_msr = 0,
            pending_esr = 0\<rparr>,
      regs = (\<lambda>_. 0)(APIC_TASKPRI := 0x25, APIC_ISR + 0x10 := 0x10001),
      loaded = \<lparr>loaded_hw = False, loaded_regs = False, loaded_id = 0, loaded_ldr = 0\<rparr>,
      timer_last_update = 0, calls = []\<rparr>"

text \<open>No optional platform hook and no direct virtual-interrupt delivery.\<close>

definition hvm_funcs_none :: hvm_function_table where
  "hvm_funcs_none = \<lparr>update_eoi_exit_bitmap = False, deliver_posted_intr = False,
     handle_eoi = False, virtual_intr_delivery = False\<rparr>"

text \<open>A domain with the APIC-assist enlightenment and no synthetic interrupt controller.\<close>

definition viridian_assist :: viridian where
  "viridian_assist = \<lparr>has_viridian_apic_assist = True, has_viridian_synic = False,
     viridian_synic_is_auto_eoi_sint = (\<lambda>_. False)\<rparr>"

text \<open>A controller with every register zero.\<close>

definition vlapic_idle :: vlapic where
  "vlapic_idle =
     \<lparr>hw = \<lparr>apic_base_msr = 0xFEE00800, disabled = 0, timer_divisor = 2, tdt_msr = 0,
            pending_esr = 0\<rparr>,
      regs = (\<lambda>_. 0),
      loaded = \<lparr>loaded_hw = False, loaded_regs = False, loaded_id = 0, loaded_ldr = 0\<rparr>,
      timer_last_update = 0, calls = []\<rparr>"

text \<open>The same with the error LVT unmasked and its vector 0xFE.\<close>

definition vlapic_lvterr_example :: vlapic where
  "vlapic_lvterr_example = vlapic_set_reg vlapic_idle APIC_LVTERR 0xFE"

text \<open>The same with the error LVT unmasked and its vector the illegal vector 5.\<close>

definition vlapic_lvterr_illegal_example :: vlapic where
  "vlapic_lvterr_illegal_example = vlapic_set_reg vlapic_idle APIC_LVTERR 0x05"

text \<open>Standard addressing, flat addressing format, logical ID 2.\<close>

definition vlapic_flat_example :: vlapic where
  "vlapic_flat_example =
     vlapic_set_reg (vlapic_set_reg vlapic_idle APIC_LDR 0x02000000) APIC_DFR 0xFFFFFFFF"

text \<open>Periodic timer mode, initial count 1000, divisor 2, last update at time 100.\<close>

definition vlapic_periodic_example :: vlapic where
  "vlapic_periodic_example =
     (vlapic_set_reg (vlapic_set_reg vlapic_idle APIC_LVTT 0x20030) APIC_TMICT 1000)
       \<lparr>timer_last_update := 100\<rparr>"

text \<open>A domain with one virtual processor.\<close>

definition domain_example :: domain where
  "domain_example = \<lparr>has_vlapic = True, vcpu = [Some vlapic_idle],
     bug_x2apic_ldr_vcpu_id = False\<rparr>"





text \<open>
  A hidden record for processor 0 in standard addressing at the default base whose timer
  divisor is 0, and the controller \<open>lapic_load_hidden\<close> makes of \<open>vlapic_idle\<close> from it.
\<close>

definition hw_zero_divisor_example :: hvm_hw_lapic where
  "hw_zero_divisor_example = \<lparr>apic_base_msr = 0xFEE00800, disabled = 0, timer_divisor = 0,
     tdt_msr = 0, pending_esr = 0\<rparr>"

definition hidden_zero_divisor_example :: hvm_domain_context where
  "hidden_zero_divisor_example =
     \<lparr>hvm_load_instance = 0, hvm_load_entry = Some hw_zero_divisor_example\<rparr>"

definition vlapic_zero_divisor_example :: vlapic where
  "vlapic_zero_divisor_example =
     \<lparr>hw = hw_zero_divisor_example,
      regs = (\<lambda>_. 0),
      loaded = \<lparr>loaded_hw = True, loaded_regs = False, loaded_id = 0, loaded_ldr = 0\<rparr>,
      timer_last_update = 0, calls = [Hvm_update_vlapic_mode]\<rparr>"

section \<open>The bitmap scan\<close>

lemma fls_from_le: "fls_from n x \<le> n"
  by (induction n) auto

lemma fls_from_zero_iff: "fls_from n x = 0 \<longleftrightarrow> (\<forall>i<n. \<not> bit x i)"
  by (induction n) (auto simp: less_Suc_eq)

lemma fls_from_Suc:
  "fls_from n x = Suc k \<Longrightarrow> bit x k \<and> k < n \<and> (\<forall>i. k < i \<and> i < n \<longrightarrow> \<not> bit x i)"
  by (induction n) (auto simp: less_Suc_eq split: if_splits)

lemma word32_zero_iff: "(x :: u32) = 0 \<longleftrightarrow> (\<forall>i<32. \<not> bit x i)"
  by (auto simp: bit_eq_iff dest: bit_imp_le_length)

lemma fls_zero: "fls 0 = 0"
  by (simp add: fls_def fls_from_zero_iff)

lemma fls_nonzero:
  assumes "x \<noteq> 0"
  obtains m where "fls x = Suc m" "m < 32" "bit x m" "\<And>i. bit x i \<Longrightarrow> i \<le> m"
proof -
  have "fls_from 32 x \<noteq> 0"
    using assms by (simp add: fls_from_zero_iff word32_zero_iff)
  then obtain m where m: "fls_from 32 x = Suc m"
    by (cases "fls_from 32 x") auto
  from fls_from_Suc [OF m] have b: "bit x m" "m < 32" "\<forall>i. m < i \<and> i < 32 \<longrightarrow> \<not> bit x i"
    by auto
  have "i \<le> m" if "bit x i" for i
  proof (rule ccontr)
    assume "\<not> i \<le> m"
    moreover have "i < 32" using that by (auto dest: bit_imp_le_length)
    ultimately show False using b(3) that by auto
  qed
  with m b show thesis by (auto intro: that simp: fls_def)
qed

lemma find_word_lt: "0 < n \<Longrightarrow> find_word w n < n"
  by (induction n) (auto simp: less_Suc_eq)

lemma find_word_above: "find_word w n < j \<Longrightarrow> j < n \<Longrightarrow> w (j * 4) = 0"
  by (induction n) (auto simp: less_Suc_eq split: if_splits)

lemma find_word_zero: "w (find_word w n * 4) = 0 \<Longrightarrow> j < n \<Longrightarrow> w (j * 4) = 0"
  by (induction n) (auto simp: less_Suc_eq split: if_splits)

lemma find_word_all_zero: "(\<forall>j<n. w (j * 4) = 0) \<Longrightarrow> find_word w n = 0"
  by (induction n) auto

lemma test_vector_word:
  "vlapic_test_vector v b r = bit (r (b + 16 * (v div 32))) (v mod 32)"
  by (simp add: vlapic_test_vector_def REG_POS_def VEC_POS_def mult.commute)

lemma bitmap_word_zero_iff:
  "(\<forall>v<256. \<not> vlapic_test_vector v b r) \<longleftrightarrow> (\<forall>j<8. r (b + 16 * j) = 0)"
proof
  assume e: "\<forall>v<256. \<not> vlapic_test_vector v b r"
  show "\<forall>j<8. r (b + 16 * j) = 0"
  proof (intro allI impI)
    fix j :: nat assume j: "j < 8"
    have "\<not> bit (r (b + 16 * j)) i" if "i < 32" for i
    proof -
      have "32 * j + i < 256" using j that by simp
      moreover have "(32 * j + i) div 32 = j" "(32 * j + i) mod 32 = i" using that by simp_all
      ultimately show ?thesis using e [rule_format, of "32 * j + i"]
        by (simp add: test_vector_word)
    qed
    then show "r (b + 16 * j) = 0" by (simp add: word32_zero_iff)
  qed
next
  assume z: "\<forall>j<8. r (b + 16 * j) = 0"
  show "\<forall>v<256. \<not> vlapic_test_vector v b r"
  proof (intro allI impI)
    fix v :: nat assume "v < 256"
    then have "v div 32 < 8" by simp
    with z show "\<not> vlapic_test_vector v b r" by (simp add: test_vector_word)
  qed
qed

lemma find_highest_vector_empty:
  assumes "\<forall>v<256. \<not> vlapic_test_vector v b r"
  shows "vlapic_find_highest_vector b r = -1"
proof -
  from assms have z: "\<forall>j<8. r (b + 16 * j) = 0" by (simp add: bitmap_word_zero_iff)
  then have "find_word (\<lambda>i. r (b + 4 * i)) 8 = 0" by (intro find_word_all_zero) (simp add: mult.commute)
  moreover have "r b = 0" using z [rule_format, of 0] by simp
  ultimately show ?thesis
    by (simp add: vlapic_find_highest_vector_def X86_IDT_VECTORS_def fls_zero)
qed

lemma find_highest_vector_nonempty:
  assumes "v < 256" "vlapic_test_vector v b r"
  shows "\<exists>h<256. vlapic_find_highest_vector b r = int h \<and> vlapic_test_vector h b r \<and>
    (\<forall>u<256. vlapic_test_vector u b r \<longrightarrow> u \<le> h)"
proof -
  define w where "w = (\<lambda>i. r (b + 4 * i))"
  define k where "k = find_word w 8"
  have k8: "k < 8" unfolding k_def by (rule find_word_lt) simp
  have nz: "w (k * 4) \<noteq> 0"
  proof
    assume "w (k * 4) = 0"
    then have "\<forall>j<8. w (j * 4) = 0" unfolding k_def by (auto intro: find_word_zero)
    then have "\<forall>v<256. \<not> vlapic_test_vector v b r"
      by (simp add: bitmap_word_zero_iff w_def mult.commute)
    with assms show False by blast
  qed
  from fls_nonzero [OF nz] obtain m where m: "fls (w (k * 4)) = Suc m" "m < 32"
    "bit (w (k * 4)) m" "\<And>i. bit (w (k * 4)) i \<Longrightarrow> i \<le> m" by blast
  let ?h = "32 * k + m"
  have hd: "?h div 32 = k" "?h mod 32 = m" using m(2) by simp_all
  have 1: "?h < 256" using k8 m(2) by simp
  have 2: "vlapic_find_highest_vector b r = int ?h"
    using m(1) by (simp add: vlapic_find_highest_vector_def X86_IDT_VECTORS_def Let_def
        w_def [symmetric] k_def [symmetric])
  have 3: "vlapic_test_vector ?h b r"
    using m(3) unfolding test_vector_word hd w_def by (simp add: mult.commute)
  have 4: "u \<le> ?h" if u: "u < 256" "vlapic_test_vector u b r" for u
  proof -
    have bu: "bit (w ((u div 32) * 4)) (u mod 32)"
      using u(2) by (simp add: test_vector_word w_def mult.commute)
    then have "w ((u div 32) * 4) \<noteq> 0" by auto
    moreover have "u div 32 < 8" using u(1) by simp
    ultimately have "\<not> k < u div 32" unfolding k_def using find_word_above by blast
    then consider "u div 32 < k" | "u div 32 = k" by linarith
    then show ?thesis
    proof cases
      case 1
      then have "u < 32 * k" by (simp add: div_less_iff_less_mult mult.commute)
      then show ?thesis by simp
    next
      case 2
      with bu have "u mod 32 \<le> m" using m(4) by simp
      moreover have "u = 32 * (u div 32) + u mod 32" by simp
      ultimately show ?thesis using 2 by linarith
    qed
  qed
  from 1 2 3 4 show ?thesis by blast
qed


section \<open>Nibbles of a register\<close>

lemma and_ff_take_bit: "(x :: u32) AND 0xff = take_bit 8 x"
proof -
  have "(0xff :: u32) = mask 8" by (simp add: mask_eq_exp_minus_1)
  then show ?thesis by (simp only: take_bit_eq_mask)
qed

lemma unat_and_ff: "unat ((x :: u32) AND 0xff) = unat x mod 256"
proof -
  have "unat (take_bit 8 x) = take_bit 8 (unat x)" by (rule unsigned_take_bit_eq)
  then show ?thesis by (simp only: and_ff_take_bit take_bit_eq_mod) simp
qed

lemma and_f0_eq: "(x :: u32) AND 0xf0 = push_bit 4 (take_bit 4 (drop_bit 4 x))"
proof -
  have m: "(push_bit 4 (mask 4) :: u32) = 0xf0"
    by (simp add: mask_eq_exp_minus_1 push_bit_eq_mult)
  have "x AND push_bit 4 (mask 4) = push_bit 4 (take_bit 4 (drop_bit 4 x))"
    by (rule bit_eqI) (auto simp: bit_simps)
  then show ?thesis by (simp only: m)
qed

lemma byte_high_nibble: "((n::nat) mod 256) div 16 = (n div 16) mod 16"
proof -
  have "n mod 256 = 16 * (n div 16 mod 16) + n mod 16"
    using mod_mult2_eq [of n 16 16] by simp
  then show ?thesis by simp
qed

lemma unat_and_f0: "unat ((x :: u32) AND 0xf0) = 16 * ((unat x mod 256) div 16)"
proof -
  have "unat (push_bit 4 (take_bit 4 (drop_bit 4 x))) =
        take_bit 32 (push_bit 4 (take_bit 4 (drop_bit 4 (unat x))))"
    by (simp only: unsigned_push_bit_eq unsigned_take_bit_eq unat_drop_bit_eq) simp
  also have "\<dots> = (16 * ((unat x div 16) mod 16)) mod 2 ^ 32"
    by (simp only: push_bit_eq_mult drop_bit_eq_div take_bit_eq_mod) (simp add: mult.commute)
  also have "\<dots> = 16 * ((unat x div 16) mod 16)"
  proof -
    have "16 * ((unat x div 16) mod 16) < 256" by simp
    then show ?thesis by simp
  qed
  also have "\<dots> = 16 * ((unat x mod 256) div 16)"
    by (simp only: byte_high_nibble)
  finally show ?thesis by (simp only: and_f0_eq)
qed

lemma unat_of_nat_vec: "h < 256 \<Longrightarrow> unat (of_nat h :: u32) = h"
  by (simp add: unat_of_nat)

lemma find_highest_vector_Max:
  assumes "v < 256" "vlapic_test_vector v b r"
  shows "vlapic_find_highest_vector b r = int (Max {v. v < 256 \<and> vlapic_test_vector v b r})"
    and "Max {v. v < 256 \<and> vlapic_test_vector v b r} < 256"
    and "vlapic_test_vector (Max {v. v < 256 \<and> vlapic_test_vector v b r}) b r"
proof -
  from assms obtain h where h: "h < 256" "vlapic_find_highest_vector b r = int h"
    "vlapic_test_vector h b r" "\<forall>u<256. vlapic_test_vector u b r \<longrightarrow> u \<le> h"
    using find_highest_vector_nonempty by blast
  have "Max {v. v < 256 \<and> vlapic_test_vector v b r} = h"
    by (rule Max_eqI) (use h in auto)
  with h show "vlapic_find_highest_vector b r = int (Max {v. v < 256 \<and> vlapic_test_vector v b r})"
    and "Max {v. v < 256 \<and> vlapic_test_vector v b r} < 256"
    and "vlapic_test_vector (Max {v. v < 256 \<and> vlapic_test_vector v b r}) b r"
    by simp_all
qed


section \<open>Highest set bit of a bitmap\<close>

text \<open>
  Claim C9. For every 256-bit bitmap, \<open>vlapic_find_highest_vector\<close> returns -1 when all
  256 bits are clear, and otherwise the index of the highest set bit: the greatest vector
  whose bit is set, so that vector 255 beats vector 0.
\<close>

theorem vlapic_find_highest_vector_correct:
  "vlapic_find_highest_vector bitmap r =
     (if \<forall>v<256. \<not> vlapic_test_vector v bitmap r then -1
      else int (Max {v. v < 256 \<and> vlapic_test_vector v bitmap r}))"
proof (cases "\<forall>v<256. \<not> vlapic_test_vector v bitmap r")
  case True
  then show ?thesis by (simp add: find_highest_vector_empty)
next
  case False
  then obtain v where "v < 256" "vlapic_test_vector v bitmap r" by blast
  then obtain h where h: "h < 256" "vlapic_find_highest_vector bitmap r = int h"
    "vlapic_test_vector h bitmap r"
    "\<forall>u<256. vlapic_test_vector u bitmap r \<longrightarrow> u \<le> h"
    using find_highest_vector_nonempty by blast
  have "Max {v. v < 256 \<and> vlapic_test_vector v bitmap r} = h"
    by (rule Max_eqI) (use h in auto)
  with False h(2) show ?thesis by simp
qed


theorem vlapic_find_highest_vector_correct_witness:
  "vlapic_test_vector 48 APIC_ISR ((\<lambda>_. 0)(APIC_ISR + 0x10 := 0x10001)) \<and>
   vlapic_find_highest_vector APIC_ISR ((\<lambda>_. 0)(APIC_ISR + 0x10 := 0x10001)) = 48 \<and>
   int (Max {v. v < 256 \<and> vlapic_test_vector v APIC_ISR ((\<lambda>_. 0)(APIC_ISR + 0x10 := 0x10001))}) = 48"
proof -
  let ?r = "(\<lambda>_. 0 :: u32)(APIC_ISR + 0x10 := 0x10001)"
  have t: "vlapic_test_vector 48 APIC_ISR ?r" by code_simp
  have e: "vlapic_find_highest_vector APIC_ISR ?r = 48" by code_simp
  have "\<not> (\<forall>v<256. \<not> vlapic_test_vector v APIC_ISR ?r)"
    using t by (intro notI) (drule spec [of _ 48], simp)
  with vlapic_find_highest_vector_correct [of APIC_ISR ?r] e t show ?thesis
    by (simp only: if_False simp_thms)
qed

section \<open>Processor priority\<close>

text \<open>
  Claim C1. For every controller state, \<open>vlapic_get_ppr\<close> returns the full task-priority
  byte (the task-priority register modulo 256) when the high nibble of that byte is at
  least the high nibble of the highest in-service vector (taken as 0 when the in-service
  bitmap is empty), and otherwise that in-service high nibble with the low nibble zero.
\<close>

theorem vlapic_get_ppr_rule:
  "vlapic_get_ppr s =
     (let tpr = unat (vlapic_get_reg s APIC_TASKPRI) mod 256;
          isrv = (if \<forall>v<256. \<not> vlapic_test_vector v APIC_ISR (regs s) then 0
                  else Max {v. v < 256 \<and> vlapic_test_vector v APIC_ISR (regs s)})
      in if tpr div 16 \<ge> isrv div 16 then of_nat tpr else of_nat (16 * (isrv div 16)))"
proof -
  define t where "t = vlapic_get_reg s APIC_TASKPRI"
  define h where "h = (if \<forall>v<256. \<not> vlapic_test_vector v APIC_ISR (regs s) then 0
                  else Max {v. v < 256 \<and> vlapic_test_vector v APIC_ISR (regs s)})"
  define isrv :: u32 where "isrv =
    (if vlapic_find_highest_isr s \<noteq> -1 then word_of_int (vlapic_find_highest_isr s) else 0)"
  have hv: "h < 256 \<and> isrv = of_nat h"
  proof (cases "\<forall>v<256. \<not> vlapic_test_vector v APIC_ISR (regs s)")
    case True
    then have "vlapic_find_highest_isr s = -1"
      unfolding vlapic_find_highest_isr_def by (rule find_highest_vector_empty)
    with True show ?thesis by (simp add: h_def isrv_def)
  next
    case False
    then obtain v where v: "v < 256" "vlapic_test_vector v APIC_ISR (regs s)" by blast
    from False have hm: "h = Max {v. v < 256 \<and> vlapic_test_vector v APIC_ISR (regs s)}"
      unfolding h_def by (rule if_not_P)
    have "vlapic_find_highest_isr s = int h" "h < 256"
      unfolding vlapic_find_highest_isr_def hm
      using find_highest_vector_Max(1,2) [OF v] by simp_all
    then show ?thesis by (simp add: isrv_def)
  qed
  have uh: "unat (isrv AND 0xf0) = 16 * (h div 16)"
    using hv by (simp add: unat_and_f0 unat_of_nat_vec)
  have ut: "unat (t AND 0xf0) = 16 * ((unat t mod 256) div 16)"
    by (rule unat_and_f0)
  have c: "(t AND 0xf0 \<ge> isrv AND 0xf0) \<longleftrightarrow> (unat t mod 256) div 16 \<ge> h div 16"
    by (simp add: word_le_nat_alt uh ut)
  have e1: "t AND 0xff = of_nat (unat t mod 256)"
    by (simp add: word_unat_eq_iff unat_and_ff unat_of_nat)
  have e2: "isrv AND 0xf0 = of_nat (16 * (h div 16))"
  proof -
    define k where "k = 16 * (h div 16)"
    have "h < 256" using hv by simp
    then have "k < 2 ^ 32" by (simp add: k_def div_less_iff_less_mult)
    then have "unat (of_nat k :: u32) = k" by (simp add: unat_of_nat)
    then show ?thesis unfolding k_def [symmetric] word_unat_eq_iff uh [folded k_def] by simp
  qed
  show ?thesis
    unfolding vlapic_get_ppr_def Let_def t_def [symmetric] isrv_def [symmetric] h_def [symmetric]
    using c e1 e2 by simp
qed


theorem vlapic_get_ppr_rule_witness:
  "vlapic_test_vector 48 APIC_ISR (regs vlapic_example) \<and>
   vlapic_get_ppr vlapic_example = 0x30 \<and>
   (let tpr = unat (vlapic_get_reg vlapic_example APIC_TASKPRI) mod 256;
        isrv = Max {v. v < 256 \<and> vlapic_test_vector v APIC_ISR (regs vlapic_example)}
    in if tpr div 16 \<ge> isrv div 16 then of_nat tpr else of_nat (16 * (isrv div 16))) = (0x30 :: u32)"
proof -
  have t: "vlapic_test_vector 48 APIC_ISR (regs vlapic_example)" by code_simp
  have e: "vlapic_get_ppr vlapic_example = 0x30" by code_simp
  have n: "\<not> (\<forall>v<256. \<not> vlapic_test_vector v APIC_ISR (regs vlapic_example))"
    using t by (intro notI) (drule spec [of _ 48], simp)
  have "(let tpr = unat (vlapic_get_reg vlapic_example APIC_TASKPRI) mod 256;
        isrv = Max {v. v < 256 \<and> vlapic_test_vector v APIC_ISR (regs vlapic_example)}
    in if tpr div 16 \<ge> isrv div 16 then of_nat tpr else of_nat (16 * (isrv div 16))) =
      vlapic_get_ppr vlapic_example"
    using vlapic_get_ppr_rule [of vlapic_example] unfolding if_not_P [OF n] by (rule sym)
  with e t show ?thesis by (simp only: simp_thms)
qed

section \<open>Bits of the three bitmaps\<close>

text \<open>
  The recursive equations of the functions defined with a termination proof are unfolded
  by hand.
\<close>

declare vlapic_error.simps [simp del] vlapic_set_irq.simps [simp del]
  vlapic_EOI_set_again.simps [simp del]

lemma REG_POS_le: "v < 256 \<Longrightarrow> REG_POS v \<le> 0x70"
  by (simp add: REG_POS_def)

lemma VEC_POS_lt: "VEC_POS v < 32"
  by (simp add: VEC_POS_def)

lemma test_set_same [simp]: "vlapic_test_vector v b (vlapic_set_vector v b r)"
  by (simp add: vlapic_test_vector_def vlapic_set_vector_def bit_simps VEC_POS_lt)

lemma test_clear_same [simp]: "\<not> vlapic_test_vector v b (vlapic_clear_vector v b r)"
  by (simp add: vlapic_test_vector_def vlapic_clear_vector_def bit_simps)

lemma vec_split: "u div 32 = v div 32 \<Longrightarrow> u mod 32 = v mod 32 \<Longrightarrow> (u :: nat) = v"
  by (metis div_mult_mod_eq)

lemma test_set_other_vec:
  "u \<noteq> v \<Longrightarrow> vlapic_test_vector u b (vlapic_set_vector v b r) = vlapic_test_vector u b r"
  by (auto simp: vlapic_test_vector_def vlapic_set_vector_def bit_simps VEC_POS_def REG_POS_def
      dest: vec_split)

lemma test_clear_other_vec:
  "u \<noteq> v \<Longrightarrow> vlapic_test_vector u b (vlapic_clear_vector v b r) = vlapic_test_vector u b r"
  by (auto simp: vlapic_test_vector_def vlapic_clear_vector_def bit_simps VEC_POS_def REG_POS_def
      dest: vec_split)

lemma test_set_other_reg:
  "b + REG_POS u \<noteq> b' + REG_POS v \<Longrightarrow>
   vlapic_test_vector u b (vlapic_set_vector v b' r) = vlapic_test_vector u b r"
  by (simp add: vlapic_test_vector_def vlapic_set_vector_def)

lemma test_clear_other_reg:
  "b + REG_POS u \<noteq> b' + REG_POS v \<Longrightarrow>
   vlapic_test_vector u b (vlapic_clear_vector v b' r) = vlapic_test_vector u b r"
  by (simp add: vlapic_test_vector_def vlapic_clear_vector_def)

lemma bitmaps_disjoint:
  assumes "u < 256" "v < 256"
  shows "APIC_IRR + REG_POS u \<noteq> APIC_TMR + REG_POS v"
    "APIC_IRR + REG_POS u \<noteq> APIC_ISR + REG_POS v"
    "APIC_TMR + REG_POS u \<noteq> APIC_ISR + REG_POS v"
    "APIC_TMR + REG_POS u \<noteq> APIC_IRR + REG_POS v"
    "APIC_ISR + REG_POS u \<noteq> APIC_IRR + REG_POS v"
    "APIC_ISR + REG_POS u \<noteq> APIC_TMR + REG_POS v"
  using REG_POS_le [OF assms(1)] REG_POS_le [OF assms(2)]
  by (simp_all add: APIC_IRR_def APIC_TMR_def APIC_ISR_def)

lemma find_highest_vector_empty_iff:
  "vlapic_find_highest_vector b r = -1 \<longleftrightarrow> (\<forall>v<256. \<not> vlapic_test_vector v b r)"
proof
  assume m: "vlapic_find_highest_vector b r = -1"
  show "\<forall>v<256. \<not> vlapic_test_vector v b r"
  proof (rule ccontr)
    assume "\<not> (\<forall>v<256. \<not> vlapic_test_vector v b r)"
    then obtain v where "v < 256" "vlapic_test_vector v b r" by blast
    then obtain h where "vlapic_find_highest_vector b r = int h"
      using find_highest_vector_nonempty by blast
    with m show False by simp
  qed
qed (rule find_highest_vector_empty)

section \<open>End of interrupt on an empty in-service bitmap\<close>

lemma EOI_set_again_empty:
  "vlapic_find_highest_isr s = -1 \<Longrightarrow> vlapic_EOI_set_again hf m s = s"
  by (subst vlapic_EOI_set_again.simps) simp

text \<open>
  Claim C3. For every controller state whose in-service bitmap is empty, \<open>vlapic_EOI_set\<close>
  (an end-of-interrupt write) is a no-op: it returns the state as it was, so no bit is
  cleared, and the record of collaborator calls is unchanged, so nothing is injected and
  neither the I/O interrupt controller nor the device-interrupt collaborator is notified.
\<close>

theorem vlapic_EOI_set_empty_isr:
  assumes "\<forall>v<256. \<not> vlapic_test_vector v APIC_ISR (regs s)"
  shows "vlapic_EOI_set hf completed s = s"
proof -
  have "vlapic_find_highest_isr s = -1"
    unfolding vlapic_find_highest_isr_def using assms by (rule find_highest_vector_empty)
  then show ?thesis by (simp add: vlapic_EOI_set_def EOI_set_again_empty)
qed

theorem vlapic_EOI_set_empty_isr_witness:
  "vlapic_find_highest_isr vlapic_idle = -1 \<and>
   vlapic_EOI_set hvm_funcs_none True vlapic_idle = vlapic_idle"
proof -
  have "\<forall>v<256. \<not> vlapic_test_vector v APIC_ISR (regs vlapic_idle)"
    by (simp add: vlapic_idle_def vlapic_test_vector_def)
  from vlapic_EOI_set_empty_isr [where hf = hvm_funcs_none and completed = True, OF this]
  have "vlapic_EOI_set hvm_funcs_none True vlapic_idle = vlapic_idle" .
  moreover have "vlapic_find_highest_isr vlapic_idle = -1" by code_simp
  ultimately show ?thesis by simp
qed

section \<open>Asserting a vector\<close>

lemma vlapic_set_irq_valid:
  "APIC_VECTOR_VALID (ucast vec) \<Longrightarrow>
   vlapic_set_irq hf s vec trig =
     (let s1 = s\<lparr>regs := (if trig \<noteq> 0
                             then vlapic_set_vector (unat vec) APIC_TMR (regs s)
                             else vlapic_clear_vector (unat vec) APIC_TMR (regs s))\<rparr>;
          s2 = (if update_eoi_exit_bitmap hf
                then do_call (Update_eoi_exit_bitmap vec trig) s1 else s1)
      in if deliver_posted_intr hf then do_call (Deliver_posted_intr vec) s2
         else (case vlapic_test_and_set_irr (unat vec) s2 of
                 (old, s3) \<Rightarrow> if \<not> old then do_call Vcpu_kick s3 else s3))"
  by (subst vlapic_set_irq.simps) simp

lemma unat_u8_lt: "unat (vec :: u8) < 256"
  using unsigned_less [of vec] by simp

lemma set_irq_irr_set:
  assumes "APIC_VECTOR_VALID (ucast vec)" "\<not> deliver_posted_intr hf"
  shows "vlapic_test_vector (unat vec) APIC_IRR (regs (vlapic_set_irq hf s vec trig))"
  using assms
  by (simp add: vlapic_set_irq_valid Let_def vlapic_test_and_set_irr_def
      vlapic_test_and_set_vector_def do_call_def)

lemma set_irq_calls:
  assumes "APIC_VECTOR_VALID (ucast vec)" "\<not> deliver_posted_intr hf"
  shows "calls (vlapic_set_irq hf s vec trig) =
         calls s @ (if update_eoi_exit_bitmap hf then [Update_eoi_exit_bitmap vec trig] else [])
                 @ (if vlapic_test_vector (unat vec) APIC_IRR (regs s) then [] else [Vcpu_kick])"
proof -
  have d: "APIC_IRR + REG_POS (unat vec) \<noteq> APIC_TMR + REG_POS (unat vec)"
    by (rule bitmaps_disjoint) (rule unat_u8_lt)+
  show ?thesis
    using assms
    by (simp add: vlapic_set_irq_valid Let_def vlapic_test_and_set_irr_def
        vlapic_test_and_set_vector_def do_call_def test_set_other_reg [OF d]
        test_clear_other_reg [OF d])
qed

lemma set_irq_irr:
  assumes "APIC_VECTOR_VALID (ucast vec)" "\<not> deliver_posted_intr hf" "u < 256"
  shows "vlapic_test_vector u APIC_IRR (regs (vlapic_set_irq hf s vec trig)) \<longleftrightarrow>
         u = unat vec \<or> vlapic_test_vector u APIC_IRR (regs s)"
proof -
  have d: "APIC_IRR + REG_POS u \<noteq> APIC_TMR + REG_POS (unat vec)"
    by (rule bitmaps_disjoint) (rule assms(3) unat_u8_lt)+
  have r: "regs (vlapic_set_irq hf s vec trig) =
      vlapic_set_vector (unat vec) APIC_IRR
        (if trig \<noteq> 0 then vlapic_set_vector (unat vec) APIC_TMR (regs s)
         else vlapic_clear_vector (unat vec) APIC_TMR (regs s))"
    using assms(1,2)
    by (simp add: vlapic_set_irq_valid Let_def vlapic_test_and_set_irr_def
        vlapic_test_and_set_vector_def do_call_def)
  show ?thesis
    by (cases "u = unat vec")
      (simp_all add: r test_set_other_vec test_set_other_reg [OF d] test_clear_other_reg [OF d])
qed

text \<open>
  Claim C4. When posted-interrupt delivery is absent, asserting the same legal vector twice
  without an intervening acknowledgment kicks the target at most once. The first
  \<open>vlapic_set_irq\<close> leaves the vector's in-request bit set, changes no other in-request
  bit, and calls \<open>vcpu_kick\<close> exactly when the bit was clear before; the second finds the
  bit set, leaves the in-request bitmap as it is and calls no \<open>vcpu_kick\<close> (its only call
  is the optional exit-bitmap hook).
\<close>

theorem vlapic_set_irq_twice_kicks_once:
  fixes hf :: hvm_function_table and s :: vlapic and vec trig trig' :: u8
  assumes "APIC_VECTOR_VALID (ucast vec)" "\<not> deliver_posted_intr hf"
  defines "s1 \<equiv> vlapic_set_irq hf s vec trig"
  defines "s2 \<equiv> vlapic_set_irq hf s1 vec trig'"
  shows "vlapic_test_vector (unat vec) APIC_IRR (regs s1) \<and>
         (\<forall>u<256. vlapic_test_vector u APIC_IRR (regs s1) \<longleftrightarrow>
                    u = unat vec \<or> vlapic_test_vector u APIC_IRR (regs s)) \<and>
         calls s1 = calls s
            @ (if update_eoi_exit_bitmap hf then [Update_eoi_exit_bitmap vec trig] else [])
            @ (if vlapic_test_vector (unat vec) APIC_IRR (regs s) then [] else [Vcpu_kick]) \<and>
         vlapic_test_vector (unat vec) APIC_IRR (regs s2) \<and>
         (\<forall>u<256. vlapic_test_vector u APIC_IRR (regs s2) \<longleftrightarrow>
                    vlapic_test_vector u APIC_IRR (regs s1)) \<and>
         calls s2 = calls s1
            @ (if update_eoi_exit_bitmap hf then [Update_eoi_exit_bitmap vec trig'] else []) \<and>
         count_list (calls s2) Vcpu_kick = count_list (calls s1) Vcpu_kick \<and>
         count_list (calls s2) Vcpu_kick \<le> count_list (calls s) Vcpu_kick + 1"
proof -
  have i1: "vlapic_test_vector (unat vec) APIC_IRR (regs s1)"
    unfolding s1_def using assms(1,2) by (rule set_irq_irr_set)
  have i2: "vlapic_test_vector (unat vec) APIC_IRR (regs s2)"
    unfolding s2_def using assms(1,2) by (rule set_irq_irr_set)
  have a1: "\<forall>u<256. vlapic_test_vector u APIC_IRR (regs s1) \<longleftrightarrow>
                    u = unat vec \<or> vlapic_test_vector u APIC_IRR (regs s)"
    unfolding s1_def using set_irq_irr [OF assms(1,2)] by blast
  have a2: "\<forall>u<256. vlapic_test_vector u APIC_IRR (regs s2) \<longleftrightarrow>
                    vlapic_test_vector u APIC_IRR (regs s1)"
    unfolding s2_def using set_irq_irr [OF assms(1,2), of _ s1 trig'] i1 by blast
  have c1: "calls s1 = calls s
            @ (if update_eoi_exit_bitmap hf then [Update_eoi_exit_bitmap vec trig] else [])
            @ (if vlapic_test_vector (unat vec) APIC_IRR (regs s) then [] else [Vcpu_kick])"
    unfolding s1_def using assms(1,2) by (rule set_irq_calls)
  have c2: "calls s2 = calls s1
            @ (if update_eoi_exit_bitmap hf then [Update_eoi_exit_bitmap vec trig'] else [])"
    unfolding s2_def using set_irq_calls [OF assms(1,2), of s1 trig'] i1 by simp
  have k2: "count_list (calls s2) Vcpu_kick = count_list (calls s1) Vcpu_kick"
    by (simp add: c2)
  have k1: "count_list (calls s1) Vcpu_kick \<le> count_list (calls s) Vcpu_kick + 1"
    by (simp add: c1)
  from i1 a1 c1 i2 a2 c2 k2 k1 show ?thesis by simp
qed

theorem vlapic_set_irq_twice_kicks_once_witness:
  "APIC_VECTOR_VALID (ucast (0x30 :: u8)) \<and> \<not> deliver_posted_intr hvm_funcs_none \<and>
   \<not> vlapic_test_vector 0x30 APIC_IRR (regs vlapic_idle) \<and>
   vlapic_test_vector 0x30 APIC_IRR (regs (vlapic_set_irq hvm_funcs_none vlapic_idle 0x30 0)) \<and>
   calls (vlapic_set_irq hvm_funcs_none vlapic_idle 0x30 0) = [Vcpu_kick] \<and>
   calls (vlapic_set_irq hvm_funcs_none
            (vlapic_set_irq hvm_funcs_none vlapic_idle 0x30 0) 0x30 0) = [Vcpu_kick]"
proof -
  have v: "APIC_VECTOR_VALID (ucast (0x30 :: u8))" by code_simp
  have p: "\<not> deliver_posted_intr hvm_funcs_none" "\<not> update_eoi_exit_bitmap hvm_funcs_none"
    by (simp_all add: hvm_funcs_none_def)
  have n: "\<not> vlapic_test_vector 0x30 APIC_IRR (regs vlapic_idle)" by code_simp
  have c: "calls vlapic_idle = []" by (simp add: vlapic_idle_def)
  have u: "unat (0x30 :: u8) = 0x30" by simp
  from vlapic_set_irq_twice_kicks_once [where s = vlapic_idle and hf = hvm_funcs_none
      and vec = "0x30" and trig = 0 and trig' = 0, OF v p(1)]
    v p n c show ?thesis
    by (simp add: u)
qed

section \<open>Raising an error\<close>

lemma ilog2_RECVILL: "ilog2 APIC_ESR_RECVILL = 6"
  by code_simp

lemma vlapic_error_unfold:
  "vlapic_error hf s err_bit =
     (let s1 = s\<lparr>hw := (hw s)\<lparr>pending_esr := set_bit err_bit (pending_esr (hw s))\<rparr>\<rparr>;
          lvterr = vlapic_get_reg s APIC_LVTERR
      in if bit (pending_esr (hw s)) err_bit then s1
         else if lvterr AND APIC_LVT_MASKED \<noteq> 0 then s1
         else if APIC_VECTOR_VALID lvterr
              then vlapic_set_irq hf s1 (ucast (lvterr AND APIC_VECTOR_MASK)) 0
         else s1\<lparr>hw := (hw s1)\<lparr>pending_esr := set_bit 6 (pending_esr (hw s1))\<rparr>\<rparr>)"
  by (subst vlapic_error.simps) (simp add: Let_def vlapic_get_reg_def ilog2_RECVILL)

lemma lvterr_vector_valid:
  "APIC_VECTOR_VALID lvterr \<Longrightarrow>
   APIC_VECTOR_VALID (ucast (ucast (lvterr AND APIC_VECTOR_MASK) :: u8))"
proof -
  have "(ucast (ucast (lvterr AND mask 8) :: u8) :: u32) AND mask 8 = lvterr AND mask 8"
    by (rule bit_eqI) (auto simp: bit_simps)
  moreover have "(0xFF :: u32) = mask 8"
    by (simp add: mask_eq_exp_minus_1)
  ultimately have "(ucast (ucast (lvterr AND 0xFF) :: u8) :: u32) AND 0xFF = lvterr AND 0xFF"
    by (simp only:)
  then show "APIC_VECTOR_VALID lvterr \<Longrightarrow>
      APIC_VECTOR_VALID (ucast (ucast (lvterr AND APIC_VECTOR_MASK) :: u8))"
    by (simp add: APIC_VECTOR_VALID_def APIC_VECTOR_MASK_def)
qed

lemma set_irq_posted:
  assumes "APIC_VECTOR_VALID (ucast vec)" "deliver_posted_intr hf"
  shows "calls (vlapic_set_irq hf s vec trig) \<noteq> [] \<and>
         last (calls (vlapic_set_irq hf s vec trig)) = Deliver_posted_intr vec"
  using assms by (simp add: vlapic_set_irq_valid Let_def do_call_def)

text \<open>
  Claim C5. For every error bit of the pending-error-status word, \<open>vlapic_error\<close> injects the
  error LVT vector only when the test-and-set of the bit finds it clear and the error LVT
  is unmasked with a legal vector: any change to the registers or any collaborator call
  implies these three conditions, and under them the result is the assertion of the LVT
  vector (its in-request bit is set, or it is handed to posted-interrupt delivery). When the
  bit was clear and the error LVT is unmasked with an illegal vector, nothing is injected
  and the receive-illegal-vector bit is set in the pending-error-status word as well. In
  every other case only the error bit is set. The function is total: the mutual recursion
  with \<open>vlapic_set_irq\<close> terminates.
\<close>

theorem vlapic_error_cases:
  fixes s :: vlapic and hf :: hvm_function_table and err_bit :: nat
  assumes "err_bit < 32"
  defines "lvterr \<equiv> vlapic_get_reg s APIC_LVTERR"
  defines "vec \<equiv> (ucast (lvterr AND APIC_VECTOR_MASK) :: u8)"
  defines "first \<equiv> \<not> bit (pending_esr (hw s)) err_bit"
  defines "unmasked \<equiv> lvterr AND APIC_LVT_MASKED = 0"
  defines "s1 \<equiv> s\<lparr>hw := (hw s)\<lparr>pending_esr := set_bit err_bit (pending_esr (hw s))\<rparr>\<rparr>"
  shows "(regs (vlapic_error hf s err_bit) \<noteq> regs s \<or> calls (vlapic_error hf s err_bit) \<noteq> calls s
            \<longrightarrow> first \<and> unmasked \<and> APIC_VECTOR_VALID lvterr)
       \<and> (first \<and> unmasked \<and> APIC_VECTOR_VALID lvterr \<longrightarrow>
            vlapic_error hf s err_bit = vlapic_set_irq hf s1 vec 0 \<and>
            APIC_VECTOR_VALID (ucast vec) \<and>
            (if deliver_posted_intr hf
             then calls (vlapic_error hf s err_bit) \<noteq> [] \<and>
                  last (calls (vlapic_error hf s err_bit)) = Deliver_posted_intr vec
             else vlapic_test_vector (unat vec) APIC_IRR (regs (vlapic_error hf s err_bit))))
       \<and> (first \<and> unmasked \<and> \<not> APIC_VECTOR_VALID lvterr \<longrightarrow>
            vlapic_error hf s err_bit =
              s\<lparr>hw := (hw s)\<lparr>pending_esr :=
                   set_bit (ilog2 APIC_ESR_RECVILL) (set_bit err_bit (pending_esr (hw s)))\<rparr>\<rparr>)
       \<and> (\<not> first \<or> \<not> unmasked \<longrightarrow> vlapic_error hf s err_bit = s1)
       \<and> bit (pending_esr (hw (vlapic_error hf s err_bit))) err_bit"
proof -
  have v: "APIC_VECTOR_VALID lvterr \<Longrightarrow> APIC_VECTOR_VALID (ucast vec)"
    unfolding vec_def by (rule lvterr_vector_valid)
  have pe: "pending_esr (hw (vlapic_set_irq hf s1 vec 0)) = pending_esr (hw s1)"
    if "APIC_VECTOR_VALID (ucast vec)"
    using that by (simp add: vlapic_set_irq_valid Let_def do_call_def vlapic_test_and_set_irr_def
        vlapic_test_and_set_vector_def split: prod.splits)
  have b1: "bit (pending_esr (hw s1)) err_bit"
    using assms(1) by (simp add: s1_def bit_simps)
  consider (a) "\<not> first" | (b) "first" "\<not> unmasked" | (c) "first" "unmasked" "APIC_VECTOR_VALID lvterr"
    | (d) "first" "unmasked" "\<not> APIC_VECTOR_VALID lvterr" by blast
  then show ?thesis
  proof cases
    case a
    then have "vlapic_error hf s err_bit = s1"
      by (simp add: vlapic_error_unfold Let_def first_def s1_def)
    with a b1 show ?thesis by (simp add: s1_def)
  next
    case b
    then have "vlapic_error hf s err_bit = s1"
      by (simp add: vlapic_error_unfold Let_def first_def s1_def unmasked_def lvterr_def)
    with b b1 show ?thesis by (simp add: s1_def)
  next
    case c
    then have e: "vlapic_error hf s err_bit = vlapic_set_irq hf s1 vec 0"
      by (simp add: vlapic_error_unfold Let_def first_def s1_def unmasked_def lvterr_def vec_def)
    from c v have vv: "APIC_VECTOR_VALID (ucast vec)" by simp
    show ?thesis
      using c vv b1 pe [OF vv] set_irq_posted [OF vv, of hf s1 0] set_irq_irr_set [OF vv, of hf s1 0]
      by (simp add: e)
  next
    case d
    then have "vlapic_error hf s err_bit =
        s\<lparr>hw := (hw s)\<lparr>pending_esr := set_bit 6 (set_bit err_bit (pending_esr (hw s)))\<rparr>\<rparr>"
      by (simp add: vlapic_error_unfold Let_def first_def s1_def unmasked_def lvterr_def)
    with d assms(1) show ?thesis by (simp add: ilog2_RECVILL bit_simps)
  qed
qed

theorem vlapic_error_cases_witness:
  "(5 :: nat) < 32 \<and>
   \<not> bit (pending_esr (hw vlapic_lvterr_example)) 5 \<and>
   vlapic_get_reg vlapic_lvterr_example APIC_LVTERR AND APIC_LVT_MASKED = 0 \<and>
   APIC_VECTOR_VALID (vlapic_get_reg vlapic_lvterr_example APIC_LVTERR) \<and>
   vlapic_test_vector 0xFE APIC_IRR (regs (vlapic_error hvm_funcs_none vlapic_lvterr_example 5)) \<and>
   bit (pending_esr (hw (vlapic_error hvm_funcs_none vlapic_lvterr_example 5))) 5 \<and>
   \<not> bit (pending_esr (hw vlapic_lvterr_illegal_example)) 5 \<and>
   vlapic_get_reg vlapic_lvterr_illegal_example APIC_LVTERR AND APIC_LVT_MASKED = 0 \<and>
   \<not> APIC_VECTOR_VALID (vlapic_get_reg vlapic_lvterr_illegal_example APIC_LVTERR) \<and>
   vlapic_error hvm_funcs_none vlapic_lvterr_illegal_example 5 =
     vlapic_lvterr_illegal_example\<lparr>hw := (hw vlapic_lvterr_illegal_example)\<lparr>pending_esr := 0x60\<rparr>\<rparr>"
proof -
  have l: "(5 :: nat) < 32" by simp
  have f: "\<not> bit (pending_esr (hw vlapic_lvterr_example)) 5" by code_simp
  have u: "vlapic_get_reg vlapic_lvterr_example APIC_LVTERR AND APIC_LVT_MASKED = 0" by code_simp
  have v: "APIC_VECTOR_VALID (vlapic_get_reg vlapic_lvterr_example APIC_LVTERR)" by code_simp
  have p: "\<not> deliver_posted_intr hvm_funcs_none" by (simp add: hvm_funcs_none_def)
  have e: "(ucast (vlapic_get_reg vlapic_lvterr_example APIC_LVTERR AND APIC_VECTOR_MASK) :: u8) = 0xFE"
    by code_simp
  from vlapic_error_cases [where s = vlapic_lvterr_example and hf = hvm_funcs_none
      and err_bit = 5, OF l] f u v p
  have 1: "vlapic_test_vector (unat (0xFE :: u8)) APIC_IRR
          (regs (vlapic_error hvm_funcs_none vlapic_lvterr_example 5)) \<and>
        bit (pending_esr (hw (vlapic_error hvm_funcs_none vlapic_lvterr_example 5))) 5"
    by (auto simp: e)
  have f': "\<not> bit (pending_esr (hw vlapic_lvterr_illegal_example)) 5" by code_simp
  have u': "vlapic_get_reg vlapic_lvterr_illegal_example APIC_LVTERR AND APIC_LVT_MASKED = 0"
    by code_simp
  have v': "\<not> APIC_VECTOR_VALID (vlapic_get_reg vlapic_lvterr_illegal_example APIC_LVTERR)"
    by code_simp
  have b: "set_bit (ilog2 APIC_ESR_RECVILL)
      (set_bit 5 (pending_esr (hw vlapic_lvterr_illegal_example))) = 0x60"
    by code_simp
  from vlapic_error_cases [where s = vlapic_lvterr_illegal_example and hf = hvm_funcs_none
      and err_bit = 5, OF l] f' u' v'
  have 2: "vlapic_error hvm_funcs_none vlapic_lvterr_illegal_example 5 =
     vlapic_lvterr_illegal_example\<lparr>hw := (hw vlapic_lvterr_illegal_example)\<lparr>pending_esr := 0x60\<rparr>\<rparr>"
    by (simp add: b)
  from l f u v 1 f' u' v' 2 show ?thesis by simp
qed

section \<open>Acknowledging a pending vector\<close>

text \<open>
  Claim C2, as the code has it. If direct virtual-interrupt delivery is active and the
  acknowledgment is not forced, \<open>vlapic_ack_pending_irq\<close> returns 1 and changes nothing.
  Otherwise it returns 1; it calls \<open>viridian_apic_assist_set\<close> exactly when the elision
  feature is available, the vector is edge-triggered and above 0x10 and the in-service
  bitmap is empty; it marks the vector in-service unless a synthetic-interrupt sink claims
  it, whether or not elision was set; it clears the vector's in-request bit; and it changes
  no other bit of the three bitmaps.
\<close>

theorem vlapic_ack_pending_irq_effect:
  fixes hf :: hvm_function_table and vd :: viridian and s :: vlapic
    and vector :: nat and force_ack :: bool
  assumes "vector < 256"
  defines "r \<equiv> vlapic_ack_pending_irq hf vd s vector force_ack"
  defines "elide \<equiv> has_viridian_apic_assist vd \<and>
      \<not> vlapic_test_vector vector APIC_TMR (regs s) \<and>
      (\<forall>v<256. \<not> vlapic_test_vector v APIC_ISR (regs s)) \<and> vector > 0x10"
  defines "claimed \<equiv> has_viridian_synic vd \<and> viridian_synic_is_auto_eoi_sint vd vector"
  shows "(\<not> force_ack \<and> virtual_intr_delivery hf \<longrightarrow> r = (1, s)) \<and>
    (force_ack \<or> \<not> virtual_intr_delivery hf \<longrightarrow>
       fst r = 1 \<and>
       calls (snd r) = calls s @ (if elide then [Viridian_apic_assist_set] else []) \<and>
       (\<forall>u<256. vlapic_test_vector u APIC_ISR (regs (snd r)) \<longleftrightarrow>
          (u = vector \<and> \<not> claimed) \<or> vlapic_test_vector u APIC_ISR (regs s)) \<and>
       (\<forall>u<256. vlapic_test_vector u APIC_IRR (regs (snd r)) \<longleftrightarrow>
          u \<noteq> vector \<and> vlapic_test_vector u APIC_IRR (regs s)) \<and>
       (\<forall>u<256. vlapic_test_vector u APIC_TMR (regs (snd r)) \<longleftrightarrow>
          vlapic_test_vector u APIC_TMR (regs s)) \<and>
       hw (snd r) = hw s)"
proof (intro conjI impI)
  assume "\<not> force_ack \<and> virtual_intr_delivery hf"
  then show "r = (1, s)" by (simp add: r_def vlapic_ack_pending_irq_def)
next
  assume a: "force_ack \<or> \<not> virtual_intr_delivery hf"
  define s1 where "s1 = (if elide then viridian_apic_assist_set s else s)"
  define s2 where "s2 = (if \<not> claimed
                  then s1\<lparr>regs := vlapic_set_vector vector APIC_ISR (regs s1)\<rparr> else s1)"
  have r: "r = (1, vlapic_clear_irr vector s2)"
    using a unfolding r_def vlapic_ack_pending_irq_def s2_def s1_def elide_def claimed_def Let_def
      vlapic_find_highest_isr_def find_highest_vector_empty_iff
    by auto
  have r1: "regs s1 = regs s" "calls s1 = calls s @ (if elide then [Viridian_apic_assist_set] else [])"
    "hw s1 = hw s"
    by (simp_all add: s1_def viridian_apic_assist_set_def do_call_def)
  have r2: "regs s2 = (if \<not> claimed then vlapic_set_vector vector APIC_ISR (regs s) else regs s)"
    "calls s2 = calls s1" "hw s2 = hw s1"
    by (simp_all add: s2_def r1)
  show "fst r = 1" by (simp add: r)
  show "calls (snd r) = calls s @ (if elide then [Viridian_apic_assist_set] else [])"
    by (simp add: r vlapic_clear_irr_def r1 r2)
  show "hw (snd r) = hw s"
    by (simp add: r vlapic_clear_irr_def r1 r2)
  show "\<forall>u<256. vlapic_test_vector u APIC_ISR (regs (snd r)) \<longleftrightarrow>
          (u = vector \<and> \<not> claimed) \<or> vlapic_test_vector u APIC_ISR (regs s)"
  proof (intro allI impI)
    fix u :: nat assume u: "u < 256"
    note d = bitmaps_disjoint [OF u assms(1)] and dv = bitmaps_disjoint [OF assms(1) assms(1)]
    show "vlapic_test_vector u APIC_ISR (regs (snd r)) \<longleftrightarrow>
          (u = vector \<and> \<not> claimed) \<or> vlapic_test_vector u APIC_ISR (regs s)"
      by (cases "u = vector")
        (simp_all add: r vlapic_clear_irr_def r2 test_clear_other_reg [OF d(5)]
          test_clear_other_reg [OF dv(5)] test_set_other_vec)
  qed
  show "\<forall>u<256. vlapic_test_vector u APIC_IRR (regs (snd r)) \<longleftrightarrow>
          u \<noteq> vector \<and> vlapic_test_vector u APIC_IRR (regs s)"
  proof (intro allI impI)
    fix u :: nat assume u: "u < 256"
    note d = bitmaps_disjoint [OF u assms(1)] and dv = bitmaps_disjoint [OF assms(1) assms(1)]
    show "vlapic_test_vector u APIC_IRR (regs (snd r)) \<longleftrightarrow>
          u \<noteq> vector \<and> vlapic_test_vector u APIC_IRR (regs s)"
      by (cases "u = vector")
        (simp_all add: r vlapic_clear_irr_def r2 test_clear_other_vec test_set_other_reg [OF d(2)]
          test_set_other_reg [OF dv(2)])
  qed
  show "\<forall>u<256. vlapic_test_vector u APIC_TMR (regs (snd r)) \<longleftrightarrow>
          vlapic_test_vector u APIC_TMR (regs s)"
  proof (intro allI impI)
    fix u :: nat assume u: "u < 256"
    note d = bitmaps_disjoint [OF u assms(1)] and dv = bitmaps_disjoint [OF assms(1) assms(1)]
    show "vlapic_test_vector u APIC_TMR (regs (snd r)) \<longleftrightarrow>
          vlapic_test_vector u APIC_TMR (regs s)"
      by (simp add: r vlapic_clear_irr_def r2 test_clear_other_reg [OF d(4)]
          test_set_other_reg [OF d(3)])
  qed
qed

theorem vlapic_ack_pending_irq_effect_witness:
  "(0x30 :: nat) < 256 \<and> \<not> virtual_intr_delivery hvm_funcs_none \<and>
   fst (vlapic_ack_pending_irq hvm_funcs_none viridian_assist vlapic_idle 0x30 False) = 1 \<and>
   calls (snd (vlapic_ack_pending_irq hvm_funcs_none viridian_assist vlapic_idle 0x30 False))
     = [Viridian_apic_assist_set] \<and>
   vlapic_test_vector 0x30 APIC_ISR
     (regs (snd (vlapic_ack_pending_irq hvm_funcs_none viridian_assist vlapic_idle 0x30 False))) \<and>
   \<not> vlapic_test_vector 0x30 APIC_IRR
     (regs (snd (vlapic_ack_pending_irq hvm_funcs_none viridian_assist vlapic_idle 0x30 False)))"
proof -
  have p: "(0x30 :: nat) < 256" by simp
  have n: "\<not> virtual_intr_delivery hvm_funcs_none" by (simp add: hvm_funcs_none_def)
  have e: "\<forall>v<256. \<not> vlapic_test_vector v APIC_ISR (regs vlapic_idle)"
    "\<not> vlapic_test_vector 0x30 APIC_TMR (regs vlapic_idle)"
    by (simp_all add: vlapic_idle_def vlapic_test_vector_def)
  have a: "has_viridian_apic_assist viridian_assist" "\<not> has_viridian_synic viridian_assist"
    by (simp_all add: viridian_assist_def)
  have c: "calls vlapic_idle = []" by (simp add: vlapic_idle_def)
  from vlapic_ack_pending_irq_effect [where hf = hvm_funcs_none and vd = viridian_assist
      and s = vlapic_idle and vector = "0x30" and force_ack = False, OF p]
    p n e a c show ?thesis
    by simp
qed

text \<open>
  Claim C2 as written says that elision is set instead of marking the vector in-service.
  With the elision feature available, an edge-triggered vector 0x30 and an empty in-service
  bitmap, the code sets elision and marks the vector in-service.
\<close>

theorem vlapic_ack_pending_irq_elision_counterexample:
  "has_viridian_apic_assist viridian_assist \<and>
   \<not> vlapic_test_vector 0x30 APIC_TMR (regs vlapic_idle) \<and>
   vlapic_find_highest_isr vlapic_idle = -1 \<and>
   (0x30 :: nat) > 0x10 \<and>
   calls (snd (vlapic_ack_pending_irq hvm_funcs_none viridian_assist vlapic_idle 0x30 False))
     = [Viridian_apic_assist_set] \<and>
   vlapic_test_vector 0x30 APIC_ISR
     (regs (snd (vlapic_ack_pending_irq hvm_funcs_none viridian_assist vlapic_idle 0x30 False)))"
  by code_simp

section \<open>Logical destination matching\<close>

lemma word_and_nonzero_iff: "(x :: 'a::len word) AND y \<noteq> 0 \<longleftrightarrow> (\<exists>i. bit x i \<and> bit y i)"
proof
  assume "x AND y \<noteq> 0"
  show "\<exists>i. bit x i \<and> bit y i"
  proof (rule ccontr)
    assume "\<not> (\<exists>i. bit x i \<and> bit y i)"
    then have "x AND y = 0" by (intro bit_eqI) (simp add: bit_simps)
    with \<open>x AND y \<noteq> 0\<close> show False by simp
  qed
next
  assume "\<exists>i. bit x i \<and> bit y i"
  then obtain i where "bit (x AND y) i" by (auto simp: bit_simps)
  then show "x AND y \<noteq> 0" by auto
qed

lemma mask8: "(0xFF :: u32) = mask 8" by (simp add: mask_eq_exp_minus_1)
lemma mask4: "(0xf :: u32) = mask 4" by (simp add: mask_eq_exp_minus_1)

lemma bit_logical_id:
  "bit (GET_xAPIC_LOGICAL_ID ldr) i \<longleftrightarrow> i < 8 \<and> bit ldr (24 + i)"
  unfolding GET_xAPIC_LOGICAL_ID_def mask8
  by (auto simp: bit_simps dest: bit_imp_le_length)

lemma bit_mda8: "bit (ucast (ucast (mda :: u32) :: u8) :: u32) i \<longleftrightarrow> i < 8 \<and> bit mda i"
  by (auto simp: bit_simps)

lemma flat_match:
  "GET_xAPIC_LOGICAL_ID ldr AND ucast (ucast (mda :: u32) :: u8) \<noteq> 0 \<longleftrightarrow>
   (\<exists>i<8. bit ldr (24 + i) \<and> bit mda i)"
  unfolding word_and_nonzero_iff bit_logical_id bit_mda8 by auto

lemma cluster_low_match:
  "GET_xAPIC_LOGICAL_ID ldr AND ucast (ucast (mda :: u32) :: u8) AND 0xf \<noteq> 0 \<longleftrightarrow>
   (\<exists>i<4. bit ldr (24 + i) \<and> bit mda i)"
proof -
  have b4: "bit (mask 4 :: u32) i \<longleftrightarrow> i < 4" for i
    by (auto simp: bit_simps)
  have "GET_xAPIC_LOGICAL_ID ldr AND ucast (ucast mda :: u8) AND mask 4 \<noteq> 0 \<longleftrightarrow>
     (\<exists>i. (i < 8 \<and> bit ldr (24 + i)) \<and> (i < 8 \<and> bit mda i) \<and> i < 4)"
    unfolding word_and_nonzero_iff bit_and_iff bit_logical_id bit_mda8 b4 by (rule refl)
  also have "\<dots> \<longleftrightarrow> (\<exists>i<4. bit ldr (24 + i) \<and> bit mda i)"
  proof
    assume "\<exists>i. (i < 8 \<and> bit ldr (24 + i)) \<and> (i < 8 \<and> bit mda i) \<and> i < 4"
    then show "\<exists>i<4. bit ldr (24 + i) \<and> bit mda i" by blast
  next
    assume "\<exists>i<4. bit ldr (24 + i) \<and> bit mda i"
    then obtain i where i: "i < 4" "bit ldr (24 + i)" "bit mda i" by blast
    then have "i < 8" by simp
    with i show "\<exists>i. (i < 8 \<and> bit ldr (24 + i)) \<and> (i < 8 \<and> bit mda i) \<and> i < 4" by blast
  qed
  finally show ?thesis unfolding mask4 .
qed

lemma cluster_high_match:
  "drop_bit 4 (GET_xAPIC_LOGICAL_ID ldr) = drop_bit 4 (ucast (ucast (mda :: u32) :: u8) :: u32) \<longleftrightarrow>
   (\<forall>i. 4 \<le> i \<and> i < 8 \<longrightarrow> bit ldr (24 + i) = bit mda i)"
proof
  assume e: "drop_bit 4 (GET_xAPIC_LOGICAL_ID ldr) = drop_bit 4 (ucast (ucast mda :: u8) :: u32)"
  show "\<forall>i. 4 \<le> i \<and> i < 8 \<longrightarrow> bit ldr (24 + i) = bit mda i"
  proof (intro allI impI)
    fix i :: nat assume i: "4 \<le> i \<and> i < 8"
    have "bit (drop_bit 4 (GET_xAPIC_LOGICAL_ID ldr)) (i - 4) =
          bit (drop_bit 4 (ucast (ucast mda :: u8) :: u32)) (i - 4)"
      by (simp only: e)
    then have "bit (GET_xAPIC_LOGICAL_ID ldr) i = bit (ucast (ucast mda :: u8) :: u32) i"
      using i by (simp only: bit_drop_bit_eq) simp
    with i show "bit ldr (24 + i) = bit mda i"
      by (simp only: bit_logical_id bit_mda8) simp
  qed
next
  assume a: "\<forall>i. 4 \<le> i \<and> i < 8 \<longrightarrow> bit ldr (24 + i) = bit mda i"
  show "drop_bit 4 (GET_xAPIC_LOGICAL_ID ldr) = drop_bit 4 (ucast (ucast mda :: u8) :: u32)"
  proof (rule bit_eqI)
    fix n :: nat
    have "bit (GET_xAPIC_LOGICAL_ID ldr) (4 + n) = bit (ucast (ucast mda :: u8) :: u32) (4 + n)"
      unfolding bit_logical_id bit_mda8 using a [rule_format, of "4 + n"] by auto
    then show "bit (drop_bit 4 (GET_xAPIC_LOGICAL_ID ldr)) n =
               bit (drop_bit 4 (ucast (ucast mda :: u8) :: u32)) n"
      by (simp only: bit_drop_bit_eq) (simp add: add.commute)
  qed
qed

lemma x2_high_match:
  "drop_bit 16 (ldr :: u32) = drop_bit 16 mda \<longleftrightarrow>
   (\<forall>i. 16 \<le> i \<and> i < 32 \<longrightarrow> bit ldr i = bit mda i)"
proof
  assume e: "drop_bit 16 ldr = drop_bit 16 mda"
  show "\<forall>i. 16 \<le> i \<and> i < 32 \<longrightarrow> bit ldr i = bit mda i"
  proof (intro allI impI)
    fix i :: nat assume i: "16 \<le> i \<and> i < 32"
    have "bit (drop_bit 16 ldr) (i - 16) = bit (drop_bit 16 mda) (i - 16)" by (simp only: e)
    with i show "bit ldr i = bit mda i" by (simp add: bit_simps)
  qed
next
  assume a: "\<forall>i. 16 \<le> i \<and> i < 32 \<longrightarrow> bit ldr i = bit mda i"
  show "drop_bit 16 ldr = drop_bit 16 mda"
  proof (rule bit_eqI)
    fix n :: nat
    show "bit (drop_bit 16 ldr) n = bit (drop_bit 16 mda) n"
    proof (cases "16 + n < 32")
      case True
      with a show ?thesis by (simp add: bit_simps add.commute)
    next
      case False
      then have "\<not> bit ldr (16 + n)" "\<not> bit mda (16 + n)" by (auto dest: bit_imp_le_length)
      then show ?thesis by (simp add: bit_simps add.commute)
    qed
  qed
qed

lemma x2_low_match:
  "(ucast ((ldr :: u32) AND mda) :: u16) \<noteq> 0 \<longleftrightarrow> (\<exists>i<16. bit ldr i \<and> bit mda i)"
proof
  assume n: "(ucast (ldr AND mda) :: u16) \<noteq> 0"
  show "\<exists>i<16. bit ldr i \<and> bit mda i"
  proof (rule ccontr)
    assume "\<not> (\<exists>i<16. bit ldr i \<and> bit mda i)"
    then have "(ucast (ldr AND mda) :: u16) = 0"
      by (intro bit_eqI) (auto simp: bit_simps)
    with n show False by simp
  qed
next
  assume "\<exists>i<16. bit ldr i \<and> bit mda i"
  then obtain i where "bit (ucast (ldr AND mda) :: u16) i" by (auto simp: bit_simps)
  then show "(ucast (ldr AND mda) :: u16) \<noteq> 0" by auto
qed

text \<open>
  Claim C6. For logical destination mode with no shorthand. In standard addressing with the
  addressing-format register flat, the target matches iff its logical ID (bits 24 to 31 of
  the logical-destination register) shares a bit with the low 8 bits of the destination;
  with it cluster, the target matches iff the top 4 bits of its logical ID equal the top 4
  bits of the destination's low byte and the bottom 4 bits share a bit; any other value of
  the addressing-format register yields no match. In extended addressing the target matches
  iff the high 16 bits of its logical-destination register equal the destination's high 16
  bits and the low 16 bits share a bit.
\<close>

theorem vlapic_match_dest_logical:
  fixes target source :: "nat \<times> vlapic" and dest :: u32
  defines "ldr \<equiv> vlapic_get_reg (snd target) APIC_LDR"
  defines "dfr \<equiv> vlapic_get_reg (snd target) APIC_DFR"
  defines "m \<equiv> vlapic_match_dest target source APIC_DEST_NOSHORT dest True"
  shows "(\<not> vlapic_x2apic_mode (snd target) \<and> dfr = APIC_DFR_FLAT \<longrightarrow>
           (m \<longleftrightarrow> (\<exists>i<8. bit ldr (24 + i) \<and> bit dest i))) \<and>
         (\<not> vlapic_x2apic_mode (snd target) \<and> dfr = APIC_DFR_CLUSTER \<longrightarrow>
           (m \<longleftrightarrow> (\<forall>i. 4 \<le> i \<and> i < 8 \<longrightarrow> bit ldr (24 + i) = bit dest i) \<and>
                 (\<exists>i<4. bit ldr (24 + i) \<and> bit dest i))) \<and>
         (\<not> vlapic_x2apic_mode (snd target) \<and> dfr \<noteq> APIC_DFR_FLAT \<and> dfr \<noteq> APIC_DFR_CLUSTER \<longrightarrow>
           \<not> m) \<and>
         (vlapic_x2apic_mode (snd target) \<longrightarrow>
           (m \<longleftrightarrow> (\<forall>i. 16 \<le> i \<and> i < 32 \<longrightarrow> bit ldr i = bit dest i) \<and>
                 (\<exists>i<16. bit ldr i \<and> bit dest i)))"
proof -
  have m: "m = vlapic_match_logical_addr (snd target) dest"
    by (simp add: m_def vlapic_match_dest_def)
  have fc: "APIC_DFR_FLAT \<noteq> APIC_DFR_CLUSTER"
    by (simp add: APIC_DFR_FLAT_def APIC_DFR_CLUSTER_def)
  show ?thesis
    unfolding m vlapic_match_logical_addr_def Let_def ldr_def [symmetric] dfr_def [symmetric]
      flat_match cluster_low_match cluster_high_match x2_high_match x2_low_match
    using fc by auto
qed

theorem vlapic_match_dest_logical_witness:
  "\<not> vlapic_x2apic_mode vlapic_flat_example \<and>
   vlapic_get_reg vlapic_flat_example APIC_DFR = APIC_DFR_FLAT \<and>
   vlapic_match_dest (0, vlapic_flat_example) (1, vlapic_idle) APIC_DEST_NOSHORT 3 True \<and>
   (\<exists>i<8. bit (vlapic_get_reg vlapic_flat_example APIC_LDR) (24 + i) \<and> bit (3 :: u32) i)"
proof -
  have x: "\<not> vlapic_x2apic_mode vlapic_flat_example" by code_simp
  have f: "vlapic_get_reg vlapic_flat_example APIC_DFR = APIC_DFR_FLAT" by code_simp
  have m: "vlapic_match_dest (0, vlapic_flat_example) (1, vlapic_idle) APIC_DEST_NOSHORT 3 True"
    by code_simp
  from vlapic_match_dest_logical [where target = "(0, vlapic_flat_example)"
      and source = "(1, vlapic_idle)" and dest = 3] x f m
  show ?thesis by simp
qed

section \<open>The current-count register\<close>

text \<open>
  The divisor \<open>vlapic_set_tdcr\<close> derives from the divide-configuration register is a power
  of two from 1 to 128, so \<open>APIC_BUS_CYCLE_NS * timer_divisor\<close> is not zero.
\<close>

lemma bus_cycle_times_power_nonzero:
  assumes "k \<le> 7"
  shows "APIC_BUS_CYCLE_NS * push_bit k 1 \<noteq> 0"
proof -
  from assms consider "k = 0" | "k = 1" | "k = 2" | "k = 3" | "k = 4" | "k = 5" | "k = 6" | "k = 7"
    by linarith
  then show ?thesis
    by cases (simp_all add: APIC_BUS_CYCLE_NS_def)
qed

lemma vlapic_set_tdcr_divisor:
  "APIC_BUS_CYCLE_NS * timer_divisor (hw (vlapic_set_tdcr s val)) \<noteq> 0"
proof -
  have "unat ((w :: u32) AND 7) \<le> 7" for w
  proof -
    have "w AND 7 \<le> 7" by (rule word_and_le1)
    then show ?thesis by (simp add: word_le_nat_alt)
  qed
  then have "APIC_BUS_CYCLE_NS * push_bit (unat (w AND 7)) 1 \<noteq> 0" for w :: u32
    by (rule bus_cycle_times_power_nonzero)
  then show ?thesis
    unfolding vlapic_set_tdcr_def Let_def vlapic_set_reg_def by simp
qed

lemma unat_ucast_up32: "unat (ucast (w :: u32) :: u64) = unat w"
proof -
  have "unat w < 2 ^ 32" using unsigned_less [of w] by simp
  then show ?thesis by (simp add: unsigned_ucast_eq take_bit_nat_eq_self)
qed

lemma unat_ucast_down32: "unat (w :: u64) < 2 ^ 32 \<Longrightarrow> unat (ucast w :: u32) = unat w"
  by (simp add: unsigned_ucast_eq take_bit_nat_eq_self)

lemma ucast_up32_eq_0: "(ucast (w :: u32) :: u64) = 0 \<longleftrightarrow> w = 0"
  by (metis unat_ucast_up32 unat_eq_0)

lemma get_tmcct_periodic:
  assumes d: "APIC_BUS_CYCLE_NS * timer_divisor (hw s) \<noteq> 0"
    and p: "vlapic_lvtt_period s"
    and n: "vlapic_get_reg s APIC_TMICT \<noteq> 0"
    and l: "timer_last_update s \<noteq> 0"
  shows "\<exists>c. vlapic_get_tmcct now s = Some c \<and>
     unat c = unat (vlapic_get_reg s APIC_TMICT) -
       (unat (now - timer_last_update s) div unat (APIC_BUS_CYCLE_NS * timer_divisor (hw s)))
         mod unat (vlapic_get_reg s APIC_TMICT)"
proof -
  define N where "N = vlapic_get_reg s APIC_TMICT"
  define dv where "dv = (ucast (APIC_BUS_CYCLE_NS * timer_divisor (hw s)) :: u64)"
  define cp where "cp = ((now - timer_last_update s) div dv) mod ucast N"
  have dv0: "dv \<noteq> 0" using d by (simp add: dv_def ucast_up32_eq_0)
  have N0: "unat N \<noteq> 0" using n by (simp add: N_def unat_eq_0)
  have ucp: "unat cp = (unat (now - timer_last_update s) div
      unat (APIC_BUS_CYCLE_NS * timer_divisor (hw s))) mod unat N"
    by (simp add: cp_def unat_mod unat_div dv_def unat_ucast_up32)
  have lt: "unat cp < unat N" unfolding ucp using N0 by simp
  have lt': "cp < ucast N" using lt by (simp add: word_less_nat_alt unat_ucast_up32)
  have "unat ((ucast N :: u64) - cp) = unat N - unat cp"
    using lt' by (simp add: unat_sub unat_ucast_up32)
  moreover have "unat N - unat cp < 2 ^ 32"
  proof -
    have "unat N < 2 ^ 32" using unsigned_less [of N] by simp
    then show ?thesis by (rule less_imp_diff_less)
  qed
  ultimately have r: "unat (ucast ((ucast N :: u64) - cp) :: u32) = unat N - unat cp"
    by (simp add: unat_ucast_down32)
  have "vlapic_get_tmcct now s = Some (ucast ((ucast N :: u64) - cp))"
    using dv0 p n l lt'
    by (simp add: vlapic_get_tmcct_def Let_def N_def [symmetric] dv_def [symmetric] cp_def [symmetric])
  with r ucp show ?thesis by (simp add: N_def)
qed

lemma get_tmcct_zero:
  assumes d: "APIC_BUS_CYCLE_NS * timer_divisor (hw s) \<noteq> 0"
    and z: "vlapic_get_reg s APIC_TMICT = 0 \<or> timer_last_update s = 0"
  shows "vlapic_get_tmcct now s = Some 0"
  using d z by (auto simp: vlapic_get_tmcct_def Let_def ucast_up32_eq_0)

lemma get_tmcct_zero_divisor:
  "APIC_BUS_CYCLE_NS * timer_divisor (hw s) = 0 \<Longrightarrow> vlapic_get_tmcct now s = None"
  by (simp add: vlapic_get_tmcct_def)

lemma APIC_TMCCT_neq: "APIC_TMCCT \<noteq> APIC_PROCPRI"
  by (simp add: APIC_TMCCT_def APIC_PROCPRI_def)

text \<open>
  With a nonzero \<open>APIC_BUS_CYCLE_NS * timer_divisor\<close>, as after every write of the
  divide-configuration register: for a controller in periodic timer mode with nonzero
  initial count \<open>N\<close> and a nonzero last-update timestamp, reading the current-count
  register returns \<open>N\<close> minus the elapsed guest time divided by (bus-cycle length times
  divisor), taken modulo \<open>N\<close>; with \<open>N = 1000\<close> and 2500 such units elapsed the read
  returns 500; and whenever the initial count is zero or the last-update timestamp is zero,
  the read returns 0.
\<close>

theorem vlapic_read_tmcct:
  fixes now :: u64 and s :: vlapic
  defines "N \<equiv> vlapic_get_reg s APIC_TMICT"
  defines "ticks \<equiv> unat (now - timer_last_update s) div
                     unat (APIC_BUS_CYCLE_NS * timer_divisor (hw s))"
  assumes d: "APIC_BUS_CYCLE_NS * timer_divisor (hw s) \<noteq> 0"
  shows "(vlapic_lvtt_period s \<and> N \<noteq> 0 \<and> timer_last_update s \<noteq> 0 \<longrightarrow>
            (\<exists>c. vlapic_read_aligned now s APIC_TMCCT = Some c \<and>
                 unat c = unat N - ticks mod unat N)) \<and>
         (vlapic_lvtt_period s \<and> N = 1000 \<and> timer_last_update s \<noteq> 0 \<and> ticks = 2500 \<longrightarrow>
            vlapic_read_aligned now s APIC_TMCCT = Some 500) \<and>
         (N = 0 \<or> timer_last_update s = 0 \<longrightarrow> vlapic_read_aligned now s APIC_TMCCT = Some 0)"
proof (intro conjI impI)
  assume a: "vlapic_lvtt_period s \<and> N \<noteq> 0 \<and> timer_last_update s \<noteq> 0"
  then have "vlapic_read_aligned now s APIC_TMCCT = vlapic_get_tmcct now s"
    by (simp add: vlapic_read_aligned_def APIC_TMCCT_neq)
  with get_tmcct_periodic [OF d, of now] a
  show "\<exists>c. vlapic_read_aligned now s APIC_TMCCT = Some c \<and> unat c = unat N - ticks mod unat N"
    by (simp add: N_def ticks_def)
next
  assume a: "vlapic_lvtt_period s \<and> N = 1000 \<and> timer_last_update s \<noteq> 0 \<and> ticks = 2500"
  then have e: "vlapic_read_aligned now s APIC_TMCCT = vlapic_get_tmcct now s"
    by (simp add: vlapic_read_aligned_def APIC_TMCCT_neq)
  from a have "vlapic_get_reg s APIC_TMICT \<noteq> 0" by (simp add: N_def)
  with get_tmcct_periodic [OF d, of now] a
  obtain c where c: "vlapic_get_tmcct now s = Some c" "unat c = unat N - ticks mod unat N"
    by (auto simp: N_def ticks_def)
  from a c(2) have "unat c = 500" by simp
  then have "c = 500" by (simp add: word_unat_eq_iff)
  with c(1) e show "vlapic_read_aligned now s APIC_TMCCT = Some 500" by simp
next
  assume "N = 0 \<or> timer_last_update s = 0"
  then have "vlapic_get_tmcct now s = Some 0"
    unfolding N_def by (rule get_tmcct_zero [OF d])
  then show "vlapic_read_aligned now s APIC_TMCCT = Some 0"
    by (simp add: vlapic_read_aligned_def APIC_TMCCT_neq)
qed

theorem vlapic_read_tmcct_witness:
  "APIC_BUS_CYCLE_NS * timer_divisor (hw vlapic_periodic_example) \<noteq> 0 \<and>
   vlapic_lvtt_period vlapic_periodic_example \<and>
   vlapic_get_reg vlapic_periodic_example APIC_TMICT = 1000 \<and>
   timer_last_update vlapic_periodic_example \<noteq> 0 \<and>
   unat (50100 - timer_last_update vlapic_periodic_example) div
     unat (APIC_BUS_CYCLE_NS * timer_divisor (hw vlapic_periodic_example)) = 2500 \<and>
   vlapic_read_aligned 50100 vlapic_periodic_example APIC_TMCCT = Some 500"
proof -
  have d: "APIC_BUS_CYCLE_NS * timer_divisor (hw vlapic_periodic_example) \<noteq> 0" by code_simp
  have p: "vlapic_lvtt_period vlapic_periodic_example" by code_simp
  have n: "vlapic_get_reg vlapic_periodic_example APIC_TMICT = 1000" by code_simp
  have l: "timer_last_update vlapic_periodic_example \<noteq> 0" by code_simp
  have t: "unat (50100 - timer_last_update vlapic_periodic_example) div
     unat (APIC_BUS_CYCLE_NS * timer_divisor (hw vlapic_periodic_example)) = 2500"
  proof -
    have "timer_last_update vlapic_periodic_example = 100" by code_simp
    moreover have "APIC_BUS_CYCLE_NS * timer_divisor (hw vlapic_periodic_example) = 20"
      by code_simp
    ultimately show ?thesis by simp
  qed
  from vlapic_read_tmcct [where s = vlapic_periodic_example and now = 50100, OF d] d p n l t
  show ?thesis by blast
qed

text \<open>
  \<open>lapic_check_hidden\<close> looks at the base-address value only, and \<open>lapic_load_hidden\<close>
  copies the record into the controller: a record with timer divisor 0 passes the check and
  is installed.
\<close>

lemma zero_divisor_restored:
  "lapic_check_hidden domain_example hidden_zero_divisor_example = Inr () \<and>
   lapic_load_hidden domain_example hidden_zero_divisor_example =
     Some (Inr (), domain_example\<lparr>vcpu := [Some vlapic_zero_divisor_example]\<rparr>)"
proof -
  have "lapic_check_hidden domain_example hidden_zero_divisor_example = Inr ()"
    by code_simp
  moreover have "lapic_load_hidden domain_example hidden_zero_divisor_example =
     Some (Inr (), domain_example\<lparr>vcpu := [Some vlapic_zero_divisor_example]\<rparr>)"
    by (simp add: lapic_load_hidden_def domain_example_def hidden_zero_divisor_example_def
        vlapic_zero_divisor_example_def vlapic_idle_def do_call_def Let_def)
  ultimately show ?thesis by simp
qed

text \<open>
  Claim C7. Whenever the initial count is zero or the last-update timestamp is zero, reading
  the current-count register should return 0 (the comment in \<open>vlapic_get_tmcct\<close> says so
  too). The code divides by \<open>APIC_BUS_CYCLE_NS * timer_divisor\<close> before it tests the two:
  in the controller restored from a hidden record with timer divisor 0, which has initial
  count 0 and last-update timestamp 0, the read is a divide error and returns nothing.
\<close>

theorem vlapic_read_tmcct_zero_divisor:
  "lapic_check_hidden domain_example hidden_zero_divisor_example = Inr () \<and>
   lapic_load_hidden domain_example hidden_zero_divisor_example =
     Some (Inr (), domain_example\<lparr>vcpu := [Some vlapic_zero_divisor_example]\<rparr>) \<and>
   vlapic_get_reg vlapic_zero_divisor_example APIC_TMICT = 0 \<and>
   timer_last_update vlapic_zero_divisor_example = 0 \<and>
   vlapic_read_aligned 0 vlapic_zero_divisor_example APIC_TMCCT = None"
proof -
  have "vlapic_get_reg vlapic_zero_divisor_example APIC_TMICT = 0" by code_simp
  moreover have "timer_last_update vlapic_zero_divisor_example = 0" by code_simp
  moreover have "vlapic_read_aligned 0 vlapic_zero_divisor_example APIC_TMCCT = None"
    by code_simp
  ultimately show ?thesis using zero_divisor_restored by simp
qed

section \<open>Reads through the memory-mapped window\<close>

lemma get_tmcct_Some:
  "APIC_BUS_CYCLE_NS * timer_divisor (hw s) \<noteq> 0 \<Longrightarrow> \<exists>c. vlapic_get_tmcct now s = Some c"
  by (simp add: vlapic_get_tmcct_def Let_def ucast_up32_eq_0)

lemma read_aligned_Some:
  "APIC_BUS_CYCLE_NS * timer_divisor (hw s) \<noteq> 0 \<Longrightarrow>
   \<exists>c. vlapic_read_aligned now s offset = Some c"
  using get_tmcct_Some [of s now] by (auto simp: vlapic_read_aligned_def)

lemma unat_alignment_le: "unat ((offset :: u32) AND 0xf) \<le> 15"
proof -
  have "offset AND 0xf \<le> 0xf" by (rule word_and_le1)
  then show ?thesis by (simp add: word_le_nat_alt)
qed

lemma alignment_sum_no_wrap:
  assumes "4 < unat (al :: u32) + unat (len :: u32)" "unat al + unat len < 2 ^ 32"
  shows "\<not> al + len \<le> 4"
proof -
  have "unat (al + len) = unat al + unat len"
    using assms(2) by (simp add: unat_word_ariths)
  with assms(1) show ?thesis by (simp add: word_le_nat_alt)
qed

lemma alignment_sum_wrap:
  assumes "4 < unat (al :: u32) + unat (len :: u32)" "al + len \<le> 4" "unat al \<le> 15"
  shows "len \<noteq> 1 \<and> len \<noteq> 2 \<and> len \<noteq> 4"
proof -
  have "\<not> unat al + unat len < 2 ^ 32"
    using alignment_sum_no_wrap [OF assms(1)] assms(2) by blast
  with assms(3) have "2 ^ 32 - 15 \<le> unat len" by simp
  then show ?thesis by auto
qed

text \<open>
  \<open>vlapic_mmio_read\<close> never returns another return code than \<open>X86EMUL_OKAY\<close>, and with
  a nonzero \<open>APIC_BUS_CYCLE_NS * timer_divisor\<close> it returns for every address and access
  length. Whenever the access is not contained in a single 32-bit register (alignment plus
  length exceeds 4) or the offset lies past the last defined register, the value read is
  then 0; and if alignment plus length does not wrap around 32 bits, the result is 0
  whatever the state of the controller, the divisor included: the register file is not
  consulted.
\<close>

theorem vlapic_mmio_read_total:
  fixes now address :: u64 and s :: vlapic and len :: u32
  defines "offset \<equiv> (ucast (address - vlapic_base_address s) :: u32)"
  defines "outside \<equiv> 4 < unat (offset AND 0xf) + unat len \<or> APIC_TDCR + 3 < unat offset"
  shows "(APIC_BUS_CYCLE_NS * timer_divisor (hw s) \<noteq> 0 \<longrightarrow>
            (\<exists>val. vlapic_mmio_read now s address len = Some (X86EMUL_OKAY, val))) \<and>
         (APIC_BUS_CYCLE_NS * timer_divisor (hw s) \<noteq> 0 \<and> outside \<longrightarrow>
            vlapic_mmio_read now s address len = Some (X86EMUL_OKAY, 0)) \<and>
         (outside \<and> unat (offset AND 0xf) + unat len < 2 ^ 32 \<longrightarrow>
            vlapic_mmio_read now s address len = Some (X86EMUL_OKAY, 0)) \<and>
         (\<forall>rc val. vlapic_mmio_read now s address len = Some (rc, val) \<longrightarrow>
            rc = X86EMUL_OKAY)"
proof (intro conjI impI allI)
  fix rc val
  assume "vlapic_mmio_read now s address len = Some (rc, val)"
  then show "rc = X86EMUL_OKAY"
    by (auto simp: vlapic_mmio_read_def Let_def split: if_splits option.splits)
next
  assume d: "APIC_BUS_CYCLE_NS * timer_divisor (hw s) \<noteq> 0"
  have ne: "vlapic_read_aligned now s off \<noteq> None" for off
    using read_aligned_Some [OF d, of now off] by auto
  show "\<exists>val. vlapic_mmio_read now s address len = Some (X86EMUL_OKAY, val)"
    by (simp add: vlapic_mmio_read_def Let_def offset_def [symmetric] ne split: option.split)
next
  assume a: "APIC_BUS_CYCLE_NS * timer_divisor (hw s) \<noteq> 0 \<and> outside"
  have ne: "vlapic_read_aligned now s off \<noteq> None" for off
    using read_aligned_Some [of s now off] a by auto
  show "vlapic_mmio_read now s address len = Some (X86EMUL_OKAY, 0)"
  proof (cases "(offset AND 0xf) + len \<le> 4 \<and> unat offset \<le> APIC_TDCR + 3")
    case True
    with a have "4 < unat (offset AND 0xf) + unat len" by (simp add: outside_def)
    from alignment_sum_wrap [OF this _ unat_alignment_le] True
    have "len \<noteq> 1 \<and> len \<noteq> 2 \<and> len \<noteq> 4" by simp
    with True show ?thesis
      by (simp add: vlapic_mmio_read_def Let_def offset_def [symmetric] ne split: option.split)
  next
    case False
    then show ?thesis
      by (auto simp: vlapic_mmio_read_def Let_def offset_def [symmetric])
  qed
next
  assume a: "outside \<and> unat (offset AND 0xf) + unat len < 2 ^ 32"
  have "\<not> ((offset AND 0xf) + len \<le> 4 \<and> unat offset \<le> APIC_TDCR + 3)"
  proof (cases "APIC_TDCR + 3 < unat offset")
    case True then show ?thesis by simp
  next
    case False
    with a have "4 < unat (offset AND 0xf) + unat len" by (simp add: outside_def)
    from alignment_sum_no_wrap [OF this] a show ?thesis by simp
  qed
  then show "vlapic_mmio_read now s address len = Some (X86EMUL_OKAY, 0)"
    by (auto simp: vlapic_mmio_read_def Let_def offset_def [symmetric])
qed

theorem vlapic_mmio_read_total_witness:
  "APIC_BUS_CYCLE_NS * timer_divisor (hw vlapic_example) \<noteq> 0 \<and>
   4 < unat ((ucast (0xFEE00082 - vlapic_base_address vlapic_example) :: u32) AND 0xf) + unat (4 :: u32) \<and>
   vlapic_mmio_read 0 vlapic_example 0xFEE00082 4 = Some (X86EMUL_OKAY, 0) \<and>
   vlapic_mmio_read 0 vlapic_example 0xFEE00080 4 = Some (X86EMUL_OKAY, 0x25)"
proof -
  have d: "APIC_BUS_CYCLE_NS * timer_divisor (hw vlapic_example) \<noteq> 0" by code_simp
  have o: "4 < unat ((ucast (0xFEE00082 - vlapic_base_address vlapic_example) :: u32) AND 0xf) + unat (4 :: u32)"
    by code_simp
  have i: "vlapic_mmio_read 0 vlapic_example 0xFEE00080 4 = Some (X86EMUL_OKAY, 0x25)"
    by code_simp
  from vlapic_mmio_read_total [where s = vlapic_example and now = 0 and address = "0xFEE00082"
      and len = 4] d o i
  show ?thesis by simp
qed

text \<open>
  Claim C10. For every address and access length the handler should return success. In the
  controller restored from a hidden record with timer divisor 0, the aligned 4-byte read
  of the current-count register (offset 0x390) is a divide error and returns nothing. An
  access at alignment 1 is not contained in a register and the one of length 4 reads 0
  without looking at the register file; the one of length \<open>0xFFFFFFFF\<close>, for which
  alignment plus length wraps around to 0, does read the register and meets the same
  divide error.
\<close>

theorem vlapic_mmio_read_zero_divisor:
  "lapic_check_hidden domain_example hidden_zero_divisor_example = Inr () \<and>
   lapic_load_hidden domain_example hidden_zero_divisor_example =
     Some (Inr (), domain_example\<lparr>vcpu := [Some vlapic_zero_divisor_example]\<rparr>) \<and>
   vlapic_base_address vlapic_zero_divisor_example = 0xFEE00000 \<and>
   vlapic_mmio_read 0 vlapic_zero_divisor_example 0xFEE00390 4 = None \<and>
   vlapic_mmio_read 0 vlapic_zero_divisor_example 0xFEE00391 4 = Some (X86EMUL_OKAY, 0) \<and>
   vlapic_mmio_read 0 vlapic_zero_divisor_example 0xFEE00391 0xFFFFFFFF = None"
proof -
  have "vlapic_base_address vlapic_zero_divisor_example = 0xFEE00000" by code_simp
  moreover have "vlapic_mmio_read 0 vlapic_zero_divisor_example 0xFEE00390 4 = None"
    by code_simp
  moreover have "vlapic_mmio_read 0 vlapic_zero_divisor_example 0xFEE00391 4 =
      Some (X86EMUL_OKAY, 0)"
    by code_simp
  moreover have "vlapic_mmio_read 0 vlapic_zero_divisor_example 0xFEE00391 0xFFFFFFFF = None"
    by code_simp
  ultimately show ?thesis using zero_divisor_restored by simp
qed

section \<open>Restoring a hidden record\<close>



lemma lapic_check_hidden_no_vlapic:
  "\<not> has_vlapic d \<Longrightarrow> lapic_check_hidden d h = Inl ENODEV"
  by (simp add: lapic_check_hidden_def lapic_check_common_def)






end
